theory Spec2Isabelle
  imports Main "HOL-Library.Word" "HOL-Library.Sublist"
begin

section \<open>JavaScript values and library functions\<close>

text \<open>
  A JavaScript string is a sequence of UTF-16 code units; \<open>length\<close>, \<open>substring\<close>,
  \<open>slice\<close>, \<open>trim\<close> and \<open>replace\<close> all work on code units. A \<open>Buffer\<close> is a sequence
  of bytes. String literals of the source are written \<open>js ''...''\<close>.
\<close>

type_synonym jschar = "16 word"
type_synonym jsstring = "jschar list"
type_synonym bytes = "8 word list"

definition js :: "string \<Rightarrow> jsstring" where
  "js s = map (\<lambda>c. of_char c) s"

text \<open>A thrown \<open>Error\<close> or a rejected promise, with its \<open>message\<close>.\<close>

datatype jserror = Error jsstring

fun message :: "jserror \<Rightarrow> jsstring" where
  "message (Error m) = m"

text \<open>
  \<open>a || b\<close> where \<open>a\<close> is a string that may be \<open>undefined\<close>: the empty string and
  \<open>undefined\<close> are falsy.
\<close>

definition truthy :: "jsstring option \<Rightarrow> bool" where
  "truthy a = (case a of None \<Rightarrow> False | Some s \<Rightarrow> s \<noteq> [])"

definition or_else :: "jsstring option \<Rightarrow> jsstring \<Rightarrow> jsstring" where
  "or_else a b = (case a of None \<Rightarrow> b | Some s \<Rightarrow> if s = [] then b else s)"

text \<open>
  \<open>String.prototype.trim\<close> removes white space and line terminators from both ends:
  TAB, LF, VT, FF, CR, SP, NBSP, the Unicode space separators, LS, PS and the BOM.
\<close>

definition is_ws :: "jschar \<Rightarrow> bool" where
  "is_ws c = (c \<in> set [0x9, 0xA, 0xB, 0xC, 0xD, 0x20, 0xA0, 0x1680,
      0x2000, 0x2001, 0x2002, 0x2003, 0x2004, 0x2005, 0x2006, 0x2007, 0x2008, 0x2009, 0x200A,
      0x2028, 0x2029, 0x202F, 0x205F, 0x3000, 0xFEFF])"

definition js_trim :: "jsstring \<Rightarrow> jsstring" where
  "js_trim s = rev (dropWhile is_ws (rev (dropWhile is_ws s)))"

text \<open>
  \<open>s.substring(a, b)\<close> for non-negative integer arguments: both are clamped to the
  length, and swapped when \<open>a > b\<close>. \<open>s.slice(0, n)\<close> is the prefix of at most \<open>n\<close> units.
\<close>

definition js_substring :: "jsstring \<Rightarrow> nat \<Rightarrow> nat \<Rightarrow> jsstring" where
  "js_substring s a b =
     (let n = length s; a' = min a n; b' = min b n; lo = min a' b'; hi = max a' b'
      in take (hi - lo) (drop lo s))"

definition js_slice0 :: "jsstring \<Rightarrow> nat \<Rightarrow> jsstring" where
  "js_slice0 s n = take n s"

text \<open>\<open>s.replace(/\n/g, ' ')\<close>: every LF (U+000A) becomes a space (U+0020).\<close>

fun replace_newlines :: "jsstring \<Rightarrow> jsstring" where
  "replace_newlines [] = []"
| "replace_newlines (c # cs) = (if c = 0xA then 0x20 # replace_newlines cs else c # replace_newlines cs)"

text \<open>\<open>xs.join(sep)\<close>.\<close>

fun js_join :: "jsstring \<Rightarrow> jsstring list \<Rightarrow> jsstring" where
  "js_join sep [] = []"
| "js_join sep [x] = x"
| "js_join sep (x # y # ys) = x @ sep @ js_join sep (y # ys)"

text \<open>\<open>String(i)\<close> for a non-negative integer: its decimal digits.\<close>

fun dec :: "nat \<Rightarrow> jsstring" where
  "dec n = (if n < 10 then [of_nat (48 + n)] else dec (n div 10) @ [of_nat (48 + n mod 10)])"

declare dec.simps [simp del]

section \<open>The job API (\<open>src/unnamed/part_000\<close>)\<close>

subsection \<open>The table \<open>ocr_jobs\<close>\<close>

text \<open>
  The recognizer's \<open>data\<close> object: its \<open>text\<close>, and the remaining properties kept as an
  opaque serialised value. An element of \<open>resultJson\<close> is \<open>{ page: i + 1, ...data }\<close> on the
  PDF branch and the bare \<open>data\<close> on the other branch, which has no \<open>page\<close> property.
  The column \<open>result_json\<close> holds \<open>JSON.stringify(resultJson)\<close> and is read back with
  \<open>JSON.parse\<close>; the model keeps the value itself.
\<close>

record ocr_data =
  ocr_text :: jsstring
  ocr_rest :: jsstring

record page_entry =
  page :: "nat option"
  data :: ocr_data

record job =
  job_id :: jsstring
  filename :: jsstring
  status :: jsstring
  language :: jsstring
  result_text :: "jsstring option"
  result_json :: "page_entry list option"
  created_at :: nat
  updated_at :: nat

text \<open>\<open>id TEXT PRIMARY KEY\<close>: the table is a map from ids to rows.\<close>

type_synonym store = "jsstring \<rightharpoonup> job"

text \<open>The files under \<open>uploads/\<close>, by path.\<close>

type_synonym files = "jsstring \<rightharpoonup> bytes"

text \<open>
  Every \<open>db.run\<close> and \<open>db.get\<close> may reject (the flag \<open>up\<close> is false when the database
  is unavailable); \<open>now\<close> is \<open>CURRENT_TIMESTAMP\<close>. An \<open>INSERT\<close> of an id that is already
  in the table violates the primary key and rejects. An \<open>UPDATE ... WHERE id = ?\<close> changes
  the row with that id, if there is one.
\<close>

definition db_insert ::
  "bool \<Rightarrow> nat \<Rightarrow> store \<Rightarrow> jsstring \<Rightarrow> jsstring \<Rightarrow> jsstring \<Rightarrow> jsstring \<Rightarrow> jserror + store" where
  "db_insert up now st i fname stat lang =
     (if \<not> up then Inl (Error (js ''SQLITE_ERROR''))
      else if st i \<noteq> None then Inl (Error (js ''SQLITE_CONSTRAINT: UNIQUE constraint failed: ocr_jobs.id''))
      else Inr (st(i \<mapsto> \<lparr>job_id = i, filename = fname, status = stat, language = lang,
                          result_text = None, result_json = None,
                          created_at = now, updated_at = now\<rparr>)))"

definition db_update_result ::
  "bool \<Rightarrow> nat \<Rightarrow> store \<Rightarrow> jsstring \<Rightarrow> jsstring \<Rightarrow> page_entry list \<Rightarrow> jsstring \<Rightarrow> jserror + store" where
  "db_update_result up now st stat txt json i =
     (if \<not> up then Inl (Error (js ''SQLITE_ERROR''))
      else case st i of
             None \<Rightarrow> Inr st
           | Some row \<Rightarrow> Inr (st(i \<mapsto> row\<lparr>status := stat, result_text := Some txt,
                                            result_json := Some json, updated_at := now\<rparr>)))"

definition db_update_status ::
  "bool \<Rightarrow> nat \<Rightarrow> store \<Rightarrow> jsstring \<Rightarrow> jsstring \<Rightarrow> jserror + store" where
  "db_update_status up now st stat i =
     (if \<not> up then Inl (Error (js ''SQLITE_ERROR''))
      else case st i of
             None \<Rightarrow> Inr st
           | Some row \<Rightarrow> Inr (st(i \<mapsto> row\<lparr>status := stat, updated_at := now\<rparr>)))"

definition db_get :: "bool \<Rightarrow> store \<Rightarrow> jsstring \<Rightarrow> jserror + job option" where
  "db_get up st i = (if \<not> up then Inl (Error (js ''SQLITE_ERROR'')) else Inr (st i))"

subsection \<open>Requests and responses\<close>

text \<open>
  \<open>req.file\<close> as multer leaves it (absent when the form has no field \<open>file\<close>), and
  \<open>req.body.language\<close>.
\<close>

record upload_file =
  originalname :: jsstring
  path :: jsstring

record upload_req =
  req_file :: "upload_file option"
  body_language :: "jsstring option"

record accessibility =
  alt_text :: jsstring
  has_text :: bool
  language_detected :: jsstring

record result_body =
  res_id :: jsstring
  res_filename :: jsstring
  res_language :: jsstring
  res_text :: jsstring
  res_data :: "page_entry list option"
  res_accessibility :: accessibility

datatype body =
    ErrorBody jsstring
  | AcceptedBody jsstring jsstring
  | StatusBody jsstring jsstring nat nat
  | ResultBody result_body

text \<open>
  \<open>Json code body\<close> is \<open>res.status(code).json(body)\<close>. \<open>Unanswered e\<close>: the async handler
  rejected with \<open>e\<close> outside any \<open>try\<close>, and no response is sent.
\<close>

datatype response = Json nat body | Unanswered jserror

subsection \<open>Collaborators\<close>

text \<open>
  The libraries the handlers call, as parameters:
  \<open>extname_lower name\<close> is \<open>path.extname(name).toLowerCase()\<close>,
  \<open>convert\<close> is \<open>pdfImgConvert.convert\<close> on the contents of the PDF file,
  \<open>recognize\<close> is the tesseract.js worker (\<open>createWorker(language)\<close>, \<open>recognize\<close>,
  \<open>terminate\<close>) on the contents of an image file. The last two may reject.
\<close>

record env =
  extname_lower :: "jsstring \<Rightarrow> jsstring"
  convert :: "bytes \<Rightarrow> jserror + bytes list"
  recognize :: "bytes \<Rightarrow> jsstring \<Rightarrow> jserror + ocr_data"

definition readFile :: "files \<Rightarrow> jsstring \<Rightarrow> jserror + bytes" where
  "readFile fs p = (case fs p of None \<Rightarrow> Inl (Error (js ''ENOENT'')) | Some b \<Rightarrow> Inr b)"

definition writeFileSync :: "files \<Rightarrow> jsstring \<Rightarrow> bytes \<Rightarrow> files" where
  "writeFileSync fs p b = fs(p \<mapsto> b)"

definition unlinkSync :: "files \<Rightarrow> jsstring \<Rightarrow> jserror + files" where
  "unlinkSync fs p = (case fs p of None \<Rightarrow> Inl (Error (js ''ENOENT'')) | Some b \<Rightarrow> Inr (fs(p := None)))"

definition performOCR :: "env \<Rightarrow> files \<Rightarrow> jsstring \<Rightarrow> jsstring \<Rightarrow> jserror + ocr_data" where
  "performOCR ev fs filePath lang =
     (case readFile fs filePath of Inl e \<Rightarrow> Inl e | Inr b \<Rightarrow> recognize ev b lang)"

subsection \<open>\<open>POST /api/ocr/upload\<close>\<close>

text \<open>What the background closure captures from the handler.\<close>

record task_ctx =
  t_jobId :: jsstring
  t_language :: jsstring
  t_filePath :: jsstring
  t_fileExt :: jsstring

text \<open>
  The handler up to the point where it starts the background closure: the response, the
  table, and the closure's context when one is started. \<open>uuid\<close> is the value of
  \<open>uuidv4()\<close>.
\<close>

definition upload_handler ::
  "env \<Rightarrow> bool \<Rightarrow> nat \<Rightarrow> jsstring \<Rightarrow> store \<Rightarrow> upload_req \<Rightarrow> response \<times> store \<times> task_ctx option" where
  "upload_handler ev up now uuid st req =
     (case req_file req of
        None \<Rightarrow> (Json 400 (ErrorBody (js ''No file uploaded'')), st, None)
      | Some f \<Rightarrow>
          (let jobId = uuid;
               lang = or_else (body_language req) (js ''eng'');
               filePath = path f;
               fileExt = extname_lower ev (originalname f)
           in case db_insert up now st jobId (originalname f) (js ''processing'') lang of
                Inl e \<Rightarrow> (Json 500 (ErrorBody (js ''Internal server error'')), st, None)
              | Inr st' \<Rightarrow>
                  (Json 202 (AcceptedBody jobId (js ''processing'')), st',
                   Some \<lparr>t_jobId = jobId, t_language = lang, t_filePath = filePath,
                         t_fileExt = fileExt\<rparr>)))"

subsection \<open>The background closure\<close>

definition temp_path :: "jsstring \<Rightarrow> nat \<Rightarrow> jsstring" where
  "temp_path jobId i = js ''uploads/temp_'' @ jobId @ js ''_'' @ dec i @ js ''.png''"

text \<open>
  The loop over \<open>pdfImages\<close>, from index \<open>i\<close> on, with the images still to do. It returns
  the files as the loop leaves them, and the error thrown or the final \<open>resultText\<close> and
  \<open>resultJson\<close>.
\<close>

fun ocr_pages ::
  "env \<Rightarrow> jsstring \<Rightarrow> jsstring \<Rightarrow> nat \<Rightarrow> bytes list \<Rightarrow> files \<Rightarrow> jsstring \<Rightarrow> page_entry list
     \<Rightarrow> files \<times> (jserror + jsstring \<times> page_entry list)" where
  "ocr_pages ev jobId lang i [] fs resultText resultJson = (fs, Inr (resultText, resultJson))"
| "ocr_pages ev jobId lang i (img # imgs) fs resultText resultJson =
     (let tempPath = temp_path jobId i;
          fs1 = writeFileSync fs tempPath img
      in case performOCR ev fs1 tempPath lang of
           Inl e \<Rightarrow> (fs1, Inl e)
         | Inr d \<Rightarrow>
             (case unlinkSync fs1 tempPath of
                Inl e \<Rightarrow> (fs1, Inl e)
              | Inr fs2 \<Rightarrow>
                  ocr_pages ev jobId lang (i + 1) imgs fs2
                    (resultText @ ocr_text d @ js [CHR 0x0A, CHR 0x0A])
                    (resultJson @ [\<lparr>page = Some (i + 1), data = d\<rparr>])))"

text \<open>The body of the closure's \<open>try\<close> before its \<open>UPDATE\<close>.\<close>

definition extraction :: "env \<Rightarrow> task_ctx \<Rightarrow> files \<Rightarrow> files \<times> (jserror + jsstring \<times> page_entry list)" where
  "extraction ev c fs =
     (if t_fileExt c = js ''.pdf'' then
        (case readFile fs (t_filePath c) of
           Inl e \<Rightarrow> (fs, Inl e)
         | Inr b \<Rightarrow>
             (case convert ev b of
                Inl e \<Rightarrow> (fs, Inl e)
              | Inr pdfImages \<Rightarrow> ocr_pages ev (t_jobId c) (t_language c) 0 pdfImages fs [] []))
      else
        (case performOCR ev fs (t_filePath c) (t_language c) of
           Inl e \<Rightarrow> (fs, Inl e)
         | Inr d \<Rightarrow> (fs, Inr (ocr_text d, [\<lparr>page = None, data = d\<rparr>]))))"

subsection \<open>\<open>GET /api/ocr/status/:id\<close> and \<open>GET /api/ocr/result/:id\<close>\<close>

definition status_handler :: "bool \<Rightarrow> store \<Rightarrow> jsstring \<Rightarrow> response" where
  "status_handler up st i =
     (case db_get up st i of
        Inl e \<Rightarrow> Unanswered e
      | Inr None \<Rightarrow> Json 404 (ErrorBody (js ''Job not found''))
      | Inr (Some row) \<Rightarrow> Json 200 (StatusBody (job_id row) (status row) (created_at row) (updated_at row)))"

definition make_accessibility :: "jsstring \<Rightarrow> jsstring \<Rightarrow> accessibility" where
  "make_accessibility txt lang =
     \<lparr>alt_text = replace_newlines (js_substring txt 0 200)
                  @ (if length txt > 200 then js ''...'' else js ''''),
      has_text = (length (js_trim txt) > 0),
      language_detected = lang\<rparr>"

text \<open>
  \<open>job.result_text.substring\<close> throws a \<open>TypeError\<close> when the column is \<open>NULL\<close>;
  \<open>JSON.parse(null)\<close> is \<open>null\<close>.
\<close>

definition result_handler :: "bool \<Rightarrow> store \<Rightarrow> jsstring \<Rightarrow> response" where
  "result_handler up st i =
     (case db_get up st i of
        Inl e \<Rightarrow> Unanswered e
      | Inr None \<Rightarrow> Json 404 (ErrorBody (js ''Job not found''))
      | Inr (Some row) \<Rightarrow>
          (if status row \<noteq> js ''completed'' then Json 400 (ErrorBody (js ''Job not completed yet''))
           else case result_text row of
                  None \<Rightarrow> Unanswered (Error (js ''TypeError''))
                | Some txt \<Rightarrow>
                    Json 200 (ResultBody
                      \<lparr>res_id = job_id row, res_filename = filename row,
                       res_language = language row, res_text = txt,
                       res_data = result_json row,
                       res_accessibility = make_accessibility txt (language row)\<rparr>)))"

subsection \<open>The server: handlers and background closures interleaved\<close>

text \<open>
  A background closure touches the table only in its two \<open>UPDATE\<close>s, and the files only
  while it extracts. Its progress is one of: started and extracting (\<open>Scheduled\<close>), about
  to run the \<open>UPDATE\<close> to completed (\<open>Completing\<close>), in the \<open>catch\<close> block about to run
  the \<open>UPDATE\<close> to failed (\<open>Failing\<close>). A closure that has returned, or whose \<open>catch\<close>
  block has rejected, is no longer in \<open>tasks\<close>.
\<close>

datatype phase =
    Scheduled task_ctx
  | Completing jsstring "page_entry list"
  | Failing jserror

record sys =
  jobs :: store
  disk :: files
  tasks :: "jsstring \<rightharpoonup> phase"

text \<open>
  The events of a run, each with what the environment supplies to it:
  \<open>Upload req content uuid now up\<close> is a request to the upload endpoint (multer has
  written \<open>content\<close> to \<open>req.file.path\<close>); \<open>Extract i\<close> lets the closure of job \<open>i\<close> run its
  extraction; \<open>Write i now up\<close> lets it run the \<open>db.run\<close> it is waiting at. An event that
  is not enabled leaves the state as it is.
\<close>

datatype event =
    Upload upload_req bytes jsstring nat bool
  | Extract jsstring
  | Write jsstring nat bool

definition multer_store :: "upload_req \<Rightarrow> bytes \<Rightarrow> files \<Rightarrow> files" where
  "multer_store req content fs =
     (case req_file req of None \<Rightarrow> fs | Some f \<Rightarrow> writeFileSync fs (path f) content)"

fun step :: "env \<Rightarrow> event \<Rightarrow> sys \<Rightarrow> sys" where
  "step ev (Upload req content uuid now up) s =
     (case upload_handler ev up now uuid (jobs s) req of
        (r, st', None) \<Rightarrow> s\<lparr>jobs := st', disk := multer_store req content (disk s)\<rparr>
      | (r, st', Some c) \<Rightarrow>
          s\<lparr>jobs := st', disk := multer_store req content (disk s),
            tasks := (tasks s)(t_jobId c \<mapsto> Scheduled c)\<rparr>)"
| "step ev (Extract i) s =
     (case tasks s i of
        Some (Scheduled c) \<Rightarrow>
          (case extraction ev c (disk s) of
             (fs', Inl e) \<Rightarrow> s\<lparr>disk := fs', tasks := (tasks s)(i \<mapsto> Failing e)\<rparr>
           | (fs', Inr (txt, json)) \<Rightarrow> s\<lparr>disk := fs', tasks := (tasks s)(i \<mapsto> Completing txt json)\<rparr>)
      | _ \<Rightarrow> s)"
| "step ev (Write i now up) s =
     (case tasks s i of
        Some (Completing txt json) \<Rightarrow>
          (case db_update_result up now (jobs s) (js ''completed'') txt json i of
             Inl e \<Rightarrow> s\<lparr>tasks := (tasks s)(i \<mapsto> Failing e)\<rparr>
           | Inr st' \<Rightarrow> s\<lparr>jobs := st', tasks := (tasks s)(i := None)\<rparr>)
      | Some (Failing e) \<Rightarrow>
          (case db_update_status up now (jobs s) (js ''failed'') i of
             Inl e' \<Rightarrow> s\<lparr>tasks := (tasks s)(i := None)\<rparr>
           | Inr st' \<Rightarrow> s\<lparr>jobs := st', tasks := (tasks s)(i := None)\<rparr>)
      | _ \<Rightarrow> s)"

fun run :: "env \<Rightarrow> event list \<Rightarrow> sys \<Rightarrow> sys" where
  "run ev [] s = s"
| "run ev (e # es) s = run ev es (step ev e s)"

text \<open>The states a run goes through, the first one included.\<close>

fun states :: "env \<Rightarrow> event list \<Rightarrow> sys \<Rightarrow> sys list" where
  "states ev [] s = [s]"
| "states ev (e # es) s = s # states ev es (step ev e s)"

definition init :: sys where
  "init = \<lparr>jobs = Map.empty, disk = Map.empty, tasks = Map.empty\<rparr>"

text \<open>
  The status values the table holds for job \<open>i\<close> along a sequence of states, repetitions
  of the same value merged.
\<close>

definition status_history :: "jsstring \<Rightarrow> sys list \<Rightarrow> jsstring list" where
  "status_history i ss = remdups_adj (List.map_filter (\<lambda>s. map_option status (jobs s i)) ss)"

section \<open>The synchronous PDF endpoint (\<open>src/index.js\<close>)\<close>

text \<open>
  \<open>app.all('/pdf')\<close> answers in the same request and keeps no job. Its collaborators, as
  parameters: \<open>url_extname url\<close> is \<open>path.extname(new URL(url).pathname)\<close> (it throws on
  an invalid URL), \<open>downloadToFile\<close>, \<open>readFileSync\<close>, \<open>pdfParse\<close> (the text-layer
  extractor), \<open>pdfToImages\<close> (pdftoppm and the sorted listing of its output directory),
  \<open>analyzeImage\<close>, \<open>ocrImage\<close>, \<open>basename\<close> and the LLM call \<open>g4f_call\<close>.
  The handler's last step before the reply, deleting a downloaded file inside its own
  \<open>try\<close>, changes neither the reply nor the calls listed here and is left out.
\<close>

record file_ref =
  f_path :: jsstring
  f_originalname :: jsstring
  f_cleanup :: bool

record pdf_req =
  pdf_file :: "upload_file option"
  query_url :: "jsstring option"
  body_url :: "jsstring option"
  query_lang :: "jsstring option"

text \<open>The object \<open>parsed\<close> that \<open>pdfParse\<close> resolves to; its \<open>text\<close> may be missing.\<close>

record parsed_pdf =
  parsed_text :: "jsstring option"

record ocr_out =
  o_text :: jsstring
  o_words :: "jsstring option"

record pdf_page =
  pg_page :: nat
  pg_image :: jsstring
  pg_meta :: jsstring
  pg_ocr :: ocr_out

record pdf_out =
  out_file :: jsstring
  out_pages :: "pdf_page list"
  out_textExtracted :: bool
  out_text :: "jsstring option"
  out_summary :: "jsstring option"

text \<open>\<open>200 {ok: true, result: out}\<close> or \<open>400 {ok: false, error: e.message}\<close>.\<close>

datatype pdf_response = PdfOk pdf_out | PdfError jsstring

text \<open>The collaborator calls a request makes, in the order it makes them.\<close>

datatype call =
    CallParse
  | CallRaster jsstring
  | CallAnalyze jsstring
  | CallOcr jsstring jsstring
  | CallLlm jsstring

record idx_env =
  upload_dir :: jsstring
  url_extname :: "jsstring \<Rightarrow> jserror + jsstring"
  downloadToFile :: "jsstring \<Rightarrow> jsstring \<Rightarrow> jserror + jsstring"
  readFileSync :: "jsstring \<Rightarrow> jserror + bytes"
  pdfParse :: "bytes \<Rightarrow> jserror + parsed_pdf option"
  pdfToImages :: "jsstring \<Rightarrow> jsstring \<Rightarrow> jserror + jsstring list"
  analyzeImage :: "jsstring \<Rightarrow> jserror + jsstring"
  ocrImage :: "jsstring \<Rightarrow> jsstring \<Rightarrow> jserror + ocr_out"
  basename :: "jsstring \<Rightarrow> jsstring"
  g4f_call :: "jsstring \<Rightarrow> jserror + jsstring"

definition path_join :: "jsstring \<Rightarrow> jsstring \<Rightarrow> jsstring" where
  "path_join d n = d @ js ''/'' @ n"

definition llmSummarize :: "idx_env \<Rightarrow> jsstring \<Rightarrow> jsstring option" where
  "llmSummarize ev prompt = (case g4f_call ev prompt of Inl e \<Rightarrow> None | Inr out \<Rightarrow> Some out)"

definition getFileFromReq :: "idx_env \<Rightarrow> jsstring \<Rightarrow> pdf_req \<Rightarrow> jserror + file_ref" where
  "getFileFromReq ev uuid req =
     (case pdf_file req of
        Some f \<Rightarrow> Inr \<lparr>f_path = path f, f_originalname = originalname f, f_cleanup = False\<rparr>
      | None \<Rightarrow>
          (if \<not> truthy (query_url req) \<and> \<not> truthy (body_url req) then
             Inl (Error (js ''no file uploaded and no url provided (use multipart form field ''
                           @ [0x22] @ js ''file'' @ [0x22] @ js '' or ?url=...)''))
           else
             (let url = or_else (query_url req) (or_else (body_url req) [])
              in case url_extname ev url of
                   Inl e \<Rightarrow> Inl e
                 | Inr ext \<Rightarrow>
                     (let tmpName = path_join (upload_dir ev)
                                      (uuid @ (if ext = [] then js ''.bin'' else ext))
                      in case downloadToFile ev url tmpName of
                           Inl e \<Rightarrow> Inl e
                         | Inr p \<Rightarrow> Inr \<lparr>f_path = tmpName, f_originalname = url, f_cleanup = True\<rparr>))))"

text \<open>
  The test \<open>parsed && parsed.text && parsed.text.trim().length > 30\<close> that selects the
  text layer.
\<close>

definition text_layer_sufficient :: "parsed_pdf option \<Rightarrow> bool" where
  "text_layer_sufficient parsed =
     (case parsed of
        None \<Rightarrow> False
      | Some p \<Rightarrow>
          (case parsed_text p of
             None \<Rightarrow> False
           | Some t \<Rightarrow> t \<noteq> [] \<and> length (js_trim t) > 30))"

text \<open>
  The loop over the rendered images from index \<open>i\<close> on, with the pages pushed so far and
  the calls made so far.
\<close>

fun ocr_images ::
  "idx_env \<Rightarrow> jsstring \<Rightarrow> nat \<Rightarrow> jsstring list \<Rightarrow> pdf_page list \<Rightarrow> call list
     \<Rightarrow> call list \<times> (jserror + pdf_page list)" where
  "ocr_images ev lang i [] pages log = (log, Inr pages)"
| "ocr_images ev lang i (p # ps) pages log =
     (case analyzeImage ev p of
        Inl e \<Rightarrow> (log @ [CallAnalyze p], Inl e)
      | Inr meta \<Rightarrow>
          (case ocrImage ev p lang of
             Inl e \<Rightarrow> (log @ [CallAnalyze p, CallOcr p lang], Inl e)
           | Inr ocr \<Rightarrow>
               ocr_images ev lang (i + 1) ps
                 (pages @ [\<lparr>pg_page = i + 1, pg_image = basename ev p, pg_meta = meta, pg_ocr = ocr\<rparr>])
                 (log @ [CallAnalyze p, CallOcr p lang])))"

text \<open>The part of the handler after the branch: the summary and the response.\<close>

definition summarize_and_reply :: "idx_env \<Rightarrow> pdf_out \<Rightarrow> call list \<Rightarrow> pdf_response \<times> call list" where
  "summarize_and_reply ev out log =
     (let combined = js_slice0
            (or_else (out_text out)
               (js_join (js [CHR 0x0A, CHR 0x0A])
                  (map (\<lambda>p. if o_text (pg_ocr p) \<noteq> [] then o_text (pg_ocr p) else [])
                     (out_pages out))))
            4000;
          prompt = js ''Summarize the document in 5 sentences and return keywords:''
                     @ js [CHR 0x0A, CHR 0x0A] @ combined
      in (PdfOk (out\<lparr>out_summary := llmSummarize ev prompt\<rparr>), log @ [CallLlm prompt]))"

definition pdf_handler ::
  "idx_env \<Rightarrow> jsstring \<Rightarrow> jsstring \<Rightarrow> pdf_req \<Rightarrow> pdf_response \<times> call list" where
  "pdf_handler ev uuid1 uuid2 req =
     (case getFileFromReq ev uuid1 req of
        Inl e \<Rightarrow> (PdfError (message e), [])
      | Inr file \<Rightarrow>
          (case readFileSync ev (f_path file) of
             Inl e \<Rightarrow> (PdfError (message e), [])
           | Inr buffer \<Rightarrow>
               (case pdfParse ev buffer of
                  Inl e \<Rightarrow> (PdfError (message e), [CallParse])
                | Inr parsed \<Rightarrow>
                    (let out = \<lparr>out_file = f_originalname file, out_pages = [],
                                out_textExtracted = False, out_text = None, out_summary = None\<rparr>
                     in if text_layer_sufficient parsed then
                          summarize_and_reply ev
                            (out\<lparr>out_textExtracted := True,
                                 out_text := (case parsed of None \<Rightarrow> None | Some p \<Rightarrow> parsed_text p)\<rparr>)
                            [CallParse]
                        else
                          (let imagesDir = path_join (path_join (upload_dir ev) (js ''pdfimgs'')) uuid2
                           in case pdfToImages ev (f_path file) imagesDir of
                                Inl e \<Rightarrow> (PdfError (message e), [CallParse, CallRaster imagesDir])
                              | Inr imgs \<Rightarrow>
                                  (case ocr_images ev (or_else (query_lang req) (js ''eng'')) 0 imgs []
                                          [CallParse, CallRaster imagesDir] of
                                     (log, Inl e) \<Rightarrow> (PdfError (message e), log)
                                   | (log, Inr pages) \<Rightarrow>
                                       summarize_and_reply ev (out\<lparr>out_pages := pages\<rparr>) log))))))"

section \<open>Invariants of the job API\<close>

text \<open>
  What a completed job stores, by the extension of its file: on the PDF branch one entry
  per page, numbered from 1, and \<open>resultText\<close> built by appending each page's text and a
  blank line; on the other branch the data the recognizer returned, for the job's
  language, on the contents of some file, and nothing else.
\<close>

definition page_shape ::
  "env \<Rightarrow> jsstring \<Rightarrow> jsstring \<Rightarrow> jsstring \<Rightarrow> page_entry list \<Rightarrow> bool" where
  "page_shape ev lang ext rtxt json =
     (if ext = js ''.pdf'' then
        rtxt = concat (map (\<lambda>p. ocr_text (data p) @ js [CHR 0x0A, CHR 0x0A]) json) \<and>
        map page json = map Some [1 ..< Suc (length json)]
      else (\<exists>b d. recognize ev b lang = Inr d \<and>
              json = [\<lparr>page = None, data = d\<rparr>] \<and> rtxt = ocr_text d))"

text \<open>
  A row is as the \<open>INSERT\<close> left it, or as one of the two \<open>UPDATE\<close>s left it. A closure
  that is still running belongs to a row in status \<open>processing\<close>.
\<close>

definition row_ok :: "env \<Rightarrow> jsstring \<Rightarrow> job \<Rightarrow> bool" where
  "row_ok ev i row =
     (job_id row = i \<and>
      ((status row = js ''processing'' \<and> result_text row = None \<and> result_json row = None) \<or>
       (status row = js ''failed'' \<and> result_text row = None \<and> result_json row = None) \<or>
       (status row = js ''completed'' \<and>
          (\<exists>rtxt json. result_text row = Some rtxt \<and> result_json row = Some json \<and>
             page_shape ev (language row) (extname_lower ev (filename row)) rtxt json))))"

definition task_ok :: "env \<Rightarrow> store \<Rightarrow> jsstring \<Rightarrow> phase \<Rightarrow> bool" where
  "task_ok ev st i ph =
     (\<exists>row. st i = Some row \<and> status row = js ''processing'' \<and>
        (case ph of
           Scheduled c \<Rightarrow> t_jobId c = i \<and> t_fileExt c = extname_lower ev (filename row) \<and>
                          t_language c = language row
         | Completing rtxt json \<Rightarrow>
             page_shape ev (language row) (extname_lower ev (filename row)) rtxt json
         | Failing e \<Rightarrow> True))"

definition inv :: "env \<Rightarrow> sys \<Rightarrow> bool" where
  "inv ev s =
     ((\<forall>i row. jobs s i = Some row \<longrightarrow> row_ok ev i row) \<and>
      (\<forall>i ph. tasks s i = Some ph \<longrightarrow> task_ok ev (jobs s) i ph))"

text \<open>
  The status values a row may take one after the other: a new row starts in
  \<open>processing\<close>; a status stays, or goes from \<open>processing\<close> to \<open>completed\<close> or \<open>failed\<close>.
\<close>

definition next_ok :: "jsstring option \<Rightarrow> jsstring \<Rightarrow> bool" where
  "next_ok prev x =
     (case prev of
        None \<Rightarrow> x = js ''processing''
      | Some y \<Rightarrow> x = y \<or> (y = js ''processing'' \<and> (x = js ''completed'' \<or> x = js ''failed'')))"

fun chain :: "jsstring option \<Rightarrow> jsstring list \<Rightarrow> bool" where
  "chain prev [] = True"
| "chain prev (x # xs) = (next_ok prev x \<and> chain (Some x) xs)"

section \<open>Observations and example inputs\<close>

text \<open>What a client and an operator can observe: the HTTP status of a response, and the
  columns of a job's row.\<close>

definition http_status :: "response \<Rightarrow> nat option" where
  "http_status r = (case r of Json code b \<Rightarrow> Some code | Unanswered e \<Rightarrow> None)"

definition stored_status :: "sys \<Rightarrow> jsstring \<Rightarrow> jsstring option" where
  "stored_status s i = map_option status (jobs s i)"

definition stored_text :: "sys \<Rightarrow> jsstring \<Rightarrow> jsstring option" where
  "stored_text s i = (case jobs s i of None \<Rightarrow> None | Some row \<Rightarrow> result_text row)"

definition stored_pages :: "sys \<Rightarrow> jsstring \<Rightarrow> page_entry list option" where
  "stored_pages s i = (case jobs s i of None \<Rightarrow> None | Some row \<Rightarrow> result_json row)"

definition page_texts :: "page_entry list \<Rightarrow> jsstring list" where
  "page_texts json = map (\<lambda>p. ocr_text (data p)) json"

text \<open>The job an event belongs to.\<close>

fun targets :: "event \<Rightarrow> jsstring" where
  "targets (Upload req content uuid now up) = uuid"
| "targets (Extract i) = i"
| "targets (Write i now up) = i"

text \<open>
  Example collaborators. In \<open>env_ok\<close> the extension is the file name from its first dot,
  every PDF renders to the two page images \<open>[1]\<close> and \<open>[2]\<close>, and the recognizer reads
  \<open>a\<close> on the image \<open>[1]\<close> and \<open>b\<close> on every other image. In \<open>env_ocr_fails\<close> the
  recognizer rejects every image. In \<open>idx_env_ok\<close> every file has a text layer of forty
  letters \<open>a\<close>, and the LLM is unreachable.
\<close>

definition env_ok :: env where
  "env_ok = \<lparr>extname_lower = dropWhile (\<lambda>c. c \<noteq> 0x2E),
             convert = (\<lambda>b. Inr [[1], [2]]),
             recognize = (\<lambda>b l. Inr \<lparr>ocr_text = (if b = [1] then js ''a'' else js ''b''), ocr_rest = []\<rparr>)\<rparr>"

definition env_ocr_fails :: env where
  "env_ocr_fails = \<lparr>extname_lower = dropWhile (\<lambda>c. c \<noteq> 0x2E),
             convert = (\<lambda>b. Inr [[1], [2]]),
             recognize = (\<lambda>b l. Inl (Error (js ''recognizer unavailable'')))\<rparr>"

definition idx_env_ok :: idx_env where
  "idx_env_ok = \<lparr>upload_dir = js ''/srv/uploads'',
                 url_extname = (\<lambda>u. Inr (js ''.pdf'')),
                 downloadToFile = (\<lambda>u p. Inr p),
                 readFileSync = (\<lambda>p. Inr [7]),
                 pdfParse = (\<lambda>b. Inr (Some \<lparr>parsed_text = Some (replicate 40 0x61)\<rparr>)),
                 pdfToImages = (\<lambda>p d. Inr [d @ js ''/p-1.png'']),
                 analyzeImage = (\<lambda>p. Inr []),
                 ocrImage = (\<lambda>p l. Inr \<lparr>o_text = js ''b'', o_words = None\<rparr>),
                 basename = (\<lambda>p. js ''p-1.png''),
                 g4f_call = (\<lambda>p. Inl (Error (js ''offline'')))\<rparr>"

text \<open>
  Example requests: an upload of a file with the given name, stored by multer as
  \<open>uploads/f1\<close>; and the run in which job \<open>j1\<close> is submitted with content \<open>[7]\<close>, its
  closure extracts, and its \<open>UPDATE\<close> succeeds.
\<close>

definition req_of :: "string \<Rightarrow> upload_req" where
  "req_of name = \<lparr>req_file = Some \<lparr>originalname = js name, path = js ''uploads/f1''\<rparr>, body_language = None\<rparr>"

definition pdf_req_of :: "string \<Rightarrow> pdf_req" where
  "pdf_req_of name = \<lparr>pdf_file = Some \<lparr>originalname = js name, path = js ''uploads/f1''\<rparr>,
                       query_url = None, body_url = None, query_lang = None\<rparr>"

definition full_run :: "string \<Rightarrow> event list" where
  "full_run name = [Upload (req_of name) [7] (js ''j1'') 0 True, Extract (js ''j1''), Write (js ''j1'') 1 True]"

section \<open>Lemmas\<close>

lemma status_distinct [simp]:
  "js ''processing'' \<noteq> js ''completed''" "js ''processing'' \<noteq> js ''failed''"
  "js ''completed'' \<noteq> js ''failed''" "js ''completed'' \<noteq> js ''processing''"
  "js ''failed'' \<noteq> js ''processing''" "js ''failed'' \<noteq> js ''completed''"
  "js ''pending'' \<noteq> js ''processing''" "js ''pending'' \<noteq> js ''completed''"
  "js ''pending'' \<noteq> js ''failed''" "js ''processing'' \<noteq> js ''pending''"
  "js ''completed'' \<noteq> js ''pending''" "js ''failed'' \<noteq> js ''pending''"
  by (simp_all add: js_def)

lemma readFile_write [simp]: "readFile (writeFileSync fs p b) p = Inr b"
  by (simp add: readFile_def writeFileSync_def)

lemma unlink_write [simp]: "unlinkSync (writeFileSync fs p b) p = Inr (fs(p := None))"
  by (simp add: unlinkSync_def writeFileSync_def)

lemma ocr_pages_result:
  "ocr_pages ev jobId lang i imgs fs rtxt json = (fs', Inr (rtxt', json')) \<Longrightarrow>
   \<exists>new. json' = json @ new \<and>
         rtxt' = rtxt @ concat (map (\<lambda>p. ocr_text (data p) @ js [CHR 0x0A, CHR 0x0A]) new) \<and>
         map page new = map Some [Suc i ..< Suc i + length imgs] \<and>
         map (\<lambda>p. Inr (data p)) new = map (\<lambda>img. recognize ev img lang) imgs"
proof (induction imgs arbitrary: i fs rtxt json)
  case Nil
  then show ?case by simp
next
  case (Cons img imgs)
  from Cons.prems obtain d where d: "recognize ev img lang = Inr d"
    by (auto simp: performOCR_def Let_def split: sum.splits)
  with Cons.prems have rec: "ocr_pages ev jobId lang (i + 1) imgs (fs(temp_path jobId i := None))
      (rtxt @ ocr_text d @ js [CHR 0x0A, CHR 0x0A]) (json @ [\<lparr>page = Some (i + 1), data = d\<rparr>]) = (fs', Inr (rtxt', json'))"
    by (simp add: performOCR_def Let_def)
  from Cons.IH [OF rec] obtain new where new:
    "json' = (json @ [\<lparr>page = Some (i + 1), data = d\<rparr>]) @ new"
    "rtxt' = (rtxt @ ocr_text d @ js [CHR 0x0A, CHR 0x0A]) @ concat (map (\<lambda>p. ocr_text (data p) @ js [CHR 0x0A, CHR 0x0A]) new)"
    "map page new = map Some [Suc (i + 1) ..< Suc (i + 1) + length imgs]"
    "map (\<lambda>p. Inr (data p)) new = map (\<lambda>img. recognize ev img lang) imgs"
    by blast
  let ?new = "\<lparr>page = Some (i + 1), data = d\<rparr> # new"
  have "json' = json @ ?new" using new(1) by simp
  moreover have "rtxt' = rtxt @ concat (map (\<lambda>p. ocr_text (data p) @ js [CHR 0x0A, CHR 0x0A]) ?new)"
    using new(2) by simp
  moreover have "map page ?new = map Some [Suc i ..< Suc i + length (img # imgs)]"
  proof -
    have "[Suc i ..< Suc i + length (img # imgs)] = Suc i # [Suc (i + 1) ..< Suc (i + 1) + length imgs]"
      using upt_conv_Cons [of "Suc i" "Suc i + length (img # imgs)"] by (simp del: upt_Suc)
    then show ?thesis using new(3) by (simp del: upt_Suc)
  qed
  moreover have "map (\<lambda>p. Inr (data p)) ?new = map (\<lambda>img. recognize ev img lang) (img # imgs)"
    using new(4) d by simp
  ultimately show ?case by blast
qed

lemma extraction_shape:
  assumes "extraction ev c fs = (fs', Inr (rtxt, json))"
  shows "page_shape ev (t_language c) (t_fileExt c) rtxt json"
proof (cases "t_fileExt c = js ''.pdf''")
  case True
  with assms obtain b imgs where
    "ocr_pages ev (t_jobId c) (t_language c) 0 imgs fs [] [] = (fs', Inr (rtxt, json))"
    by (auto simp: extraction_def split: sum.splits)
  from ocr_pages_result [OF this] obtain new where
    "json = new" "rtxt = concat (map (\<lambda>p. ocr_text (data p) @ js [CHR 0x0A, CHR 0x0A]) new)"
    "map page new = map Some [Suc 0 ..< Suc 0 + length imgs]"
    "map (\<lambda>p. Inr (data p)) new = map (\<lambda>img. recognize ev img (t_language c)) imgs"
    by auto
  moreover from this have "length new = length imgs" by (metis length_map)
  ultimately show ?thesis using True by (simp add: page_shape_def)
next
  case False
  with assms show ?thesis
    by (auto simp: extraction_def page_shape_def performOCR_def readFile_def
        split: sum.splits option.splits)
qed

lemma inv_init: "inv ev init"
  by (simp add: inv_def init_def)

lemma upload_handler_None:
  "upload_handler ev up now uuid st req = (r, st', None) \<Longrightarrow> st' = st"
  by (auto simp: upload_handler_def Let_def split: option.splits sum.splits)

lemma upload_handler_Some:
  "upload_handler ev up now uuid st req = (r, st', Some c) \<Longrightarrow>
   \<exists>f. req_file req = Some f \<and> up \<and> st uuid = None \<and>
       st' = st(uuid \<mapsto> \<lparr>job_id = uuid, filename = originalname f, status = js ''processing'',
                          language = or_else (body_language req) (js ''eng''),
                          result_text = None, result_json = None,
                          created_at = now, updated_at = now\<rparr>) \<and>
       c = \<lparr>t_jobId = uuid, t_language = or_else (body_language req) (js ''eng''),
            t_filePath = path f, t_fileExt = extname_lower ev (originalname f)\<rparr> \<and>
       r = Json 202 (AcceptedBody uuid (js ''processing''))"
  by (auto simp: upload_handler_def db_insert_def Let_def split: option.splits sum.splits if_splits)

lemma inv_upload:
  assumes "inv ev s"
  shows "inv ev (step ev (Upload req content uuid now up) s)"
proof -
  obtain r st' t where h: "upload_handler ev up now uuid (jobs s) req = (r, st', t)"
    by (cases "upload_handler ev up now uuid (jobs s) req") auto
  show ?thesis
  proof (cases t)
    case None
    with h have "st' = jobs s" by (simp add: upload_handler_None)
    with assms h None show ?thesis by (simp add: inv_def)
  next
    case (Some c)
    from upload_handler_Some [OF h [unfolded Some]] obtain f where all:
      "req_file req = Some f \<and> up \<and> jobs s uuid = None \<and>
       st' = (jobs s)(uuid \<mapsto> \<lparr>job_id = uuid, filename = originalname f, status = js ''processing'',
                          language = or_else (body_language req) (js ''eng''),
                          result_text = None, result_json = None,
                          created_at = now, updated_at = now\<rparr>) \<and>
       c = \<lparr>t_jobId = uuid, t_language = or_else (body_language req) (js ''eng''),
            t_filePath = path f, t_fileExt = extname_lower ev (originalname f)\<rparr> \<and>
       r = Json 202 (AcceptedBody uuid (js ''processing''))" ..
    from all have fresh: "jobs s uuid = None" by simp
    from all have st': "st' = (jobs s)(uuid \<mapsto> \<lparr>job_id = uuid, filename = originalname f, status = js ''processing'',
                          language = or_else (body_language req) (js ''eng''),
                          result_text = None, result_json = None,
                          created_at = now, updated_at = now\<rparr>)" by simp
    from all have c: "c = \<lparr>t_jobId = uuid, t_language = or_else (body_language req) (js ''eng''),
            t_filePath = path f, t_fileExt = extname_lower ev (originalname f)\<rparr>" by simp
    have notask: "tasks s uuid = None"
    proof (rule ccontr)
      assume "tasks s uuid \<noteq> None"
      then obtain ph where "tasks s uuid = Some ph" by auto
      with assms have "task_ok ev (jobs s) uuid ph" by (simp add: inv_def)
      with fresh show False by (simp add: task_ok_def)
    qed
    have step_eq: "step ev (Upload req content uuid now up) s =
        s\<lparr>jobs := st', disk := multer_store req content (disk s),
          tasks := (tasks s)(uuid \<mapsto> Scheduled c)\<rparr>"
      using h Some c by simp
    have rows: "\<forall>i row. st' i = Some row \<longrightarrow> row_ok ev i row"
      using assms st' by (auto simp: inv_def row_ok_def)
    have tks: "\<forall>i ph. ((tasks s)(uuid \<mapsto> Scheduled c)) i = Some ph \<longrightarrow> task_ok ev st' i ph"
    proof (intro allI impI)
      fix i ph assume a: "((tasks s)(uuid \<mapsto> Scheduled c)) i = Some ph"
      show "task_ok ev st' i ph"
      proof (cases "i = uuid")
        case True
        with a have "ph = Scheduled c" by simp
        with True st' c show ?thesis by (simp add: task_ok_def)
      next
        case False
        with a have "tasks s i = Some ph" by simp
        with assms have "task_ok ev (jobs s) i ph" by (simp add: inv_def)
        with False st' show ?thesis by (simp add: task_ok_def)
      qed
    qed
    show ?thesis unfolding step_eq using rows tks by (simp add: inv_def)
  qed
qed

lemma inv_extract:
  assumes "inv ev s"
  shows "inv ev (step ev (Extract i) s)"
proof (cases "tasks s i")
  case None
  with assms show ?thesis by simp
next
  case (Some ph)
  show ?thesis
  proof (cases ph)
    case (Scheduled c)
    from assms Some Scheduled have "task_ok ev (jobs s) i (Scheduled c)" by (simp add: inv_def)
    then obtain row where row: "jobs s i = Some row" "status row = js ''processing''"
      "t_fileExt c = extname_lower ev (filename row)" "t_language c = language row"
      by (auto simp: task_ok_def)
    obtain fs' res where ex: "extraction ev c (disk s) = (fs', res)"
      by (cases "extraction ev c (disk s)") auto
    have new_ok: "task_ok ev (jobs s) i
         (case res of Inl e \<Rightarrow> Failing e | Inr (rt, json) \<Rightarrow> Completing rt json)"
    proof (cases res)
      case (Inl e)
      with row show ?thesis by (simp add: task_ok_def)
    next
      case (Inr p)
      obtain rt json where p: "p = (rt, json)" by (cases p) auto
      from extraction_shape [OF ex [unfolded Inr p]] row(3,4)
      have "page_shape ev (language row) (extname_lower ev (filename row)) rt json" by simp
      with row Inr p show ?thesis by (simp add: task_ok_def)
    qed
    have step_eq: "step ev (Extract i) s =
        s\<lparr>disk := fs', tasks := (tasks s)(i \<mapsto>
           (case res of Inl e \<Rightarrow> Failing e | Inr (rt, json) \<Rightarrow> Completing rt json))\<rparr>"
      using Some Scheduled ex by (auto split: sum.splits)
    show ?thesis unfolding step_eq using assms new_ok by (auto simp: inv_def)
  next
    case (Completing rt json)
    with assms Some show ?thesis by simp
  next
    case (Failing e)
    with assms Some show ?thesis by simp
  qed
qed

lemma task_ok_other:
  "task_ok ev st j ph \<Longrightarrow> j \<noteq> i \<Longrightarrow> task_ok ev (st(i \<mapsto> row)) j ph"
  by (simp add: task_ok_def)

lemma inv_write:
  assumes "inv ev s"
  shows "inv ev (step ev (Write i now up) s)"
proof (cases "tasks s i")
  case None
  with assms show ?thesis by simp
next
  case (Some ph)
  from assms Some have tok: "task_ok ev (jobs s) i ph" by (simp add: inv_def)
  then obtain row where row: "jobs s i = Some row" "status row = js ''processing''"
    by (auto simp: task_ok_def)
  from assms row have rok: "row_ok ev i row" by (simp add: inv_def)
  show ?thesis
  proof (cases ph)
    case (Scheduled c)
    with assms Some show ?thesis by simp
  next
    case (Completing rt json)
    with tok row have shape: "page_shape ev (language row) (extname_lower ev (filename row)) rt json"
      by (auto simp: task_ok_def)
    show ?thesis
    proof (cases up)
      case False
      then have "step ev (Write i now up) s = s\<lparr>tasks := (tasks s)(i \<mapsto> Failing (Error (js ''SQLITE_ERROR'')))\<rparr>"
        using Some Completing by (simp add: db_update_result_def)
      moreover have "task_ok ev (jobs s) i (Failing (Error (js ''SQLITE_ERROR'')))"
        using row by (simp add: task_ok_def)
      ultimately show ?thesis using assms by (auto simp: inv_def)
    next
      case True
      let ?row' = "row\<lparr>status := js ''completed'', result_text := Some rt,
                       result_json := Some json, updated_at := now\<rparr>"
      have step_eq: "step ev (Write i now up) s =
          s\<lparr>jobs := (jobs s)(i \<mapsto> ?row'), tasks := (tasks s)(i := None)\<rparr>"
        using Some Completing True row by (simp add: db_update_result_def)
      have "row_ok ev i ?row'" using rok shape by (simp add: row_ok_def)
      then have rows: "\<forall>j r. ((jobs s)(i \<mapsto> ?row')) j = Some r \<longrightarrow> row_ok ev j r"
        using assms by (auto simp: inv_def)
      have tks: "\<forall>j p. ((tasks s)(i := None)) j = Some p \<longrightarrow> task_ok ev ((jobs s)(i \<mapsto> ?row')) j p"
        using assms by (auto simp: inv_def intro: task_ok_other)
      show ?thesis unfolding step_eq using rows tks by (simp add: inv_def)
    qed
  next
    case (Failing e)
    show ?thesis
    proof (cases up)
      case False
      then have "step ev (Write i now up) s = s\<lparr>tasks := (tasks s)(i := None)\<rparr>"
        using Some Failing by (simp add: db_update_status_def)
      then show ?thesis using assms by (auto simp: inv_def)
    next
      case True
      let ?row' = "row\<lparr>status := js ''failed'', updated_at := now\<rparr>"
      have step_eq: "step ev (Write i now up) s =
          s\<lparr>jobs := (jobs s)(i \<mapsto> ?row'), tasks := (tasks s)(i := None)\<rparr>"
        using Some Failing True row by (simp add: db_update_status_def)
      have "row_ok ev i ?row'" using rok row by (simp add: row_ok_def)
      then have rows: "\<forall>j r. ((jobs s)(i \<mapsto> ?row')) j = Some r \<longrightarrow> row_ok ev j r"
        using assms by (auto simp: inv_def)
      have tks: "\<forall>j p. ((tasks s)(i := None)) j = Some p \<longrightarrow> task_ok ev ((jobs s)(i \<mapsto> ?row')) j p"
        using assms by (auto simp: inv_def intro: task_ok_other)
      show ?thesis unfolding step_eq using rows tks by (simp add: inv_def)
    qed
  qed
qed

lemma inv_step: "inv ev s \<Longrightarrow> inv ev (step ev e s)"
  by (cases e) (simp_all only: inv_upload inv_extract inv_write)

lemma inv_run: "inv ev s \<Longrightarrow> inv ev (run ev es s)"
  by (induction es arbitrary: s) (simp_all add: inv_step)

lemma inv_reachable: "inv ev (run ev es init)"
  by (simp add: inv_run inv_init)

lemma step_extract_jobs [simp]: "jobs (step ev (Extract i) s) = jobs s"
  by (auto split: option.splits phase.splits sum.splits prod.splits)

lemma step_status:
  assumes "inv ev s"
  shows "case jobs (step ev e s) i of
           None \<Rightarrow> jobs s i = None
         | Some r' \<Rightarrow> next_ok (map_option status (jobs s i)) (status r')"
proof (cases e)
  case (Upload req content uuid now up)
  obtain r st' t where h: "upload_handler ev up now uuid (jobs s) req = (r, st', t)"
    by (cases "upload_handler ev up now uuid (jobs s) req") auto
  have j: "jobs (step ev e s) = st'" using Upload h by (cases t) simp_all
  show ?thesis
  proof (cases t)
    case None
    with h have "st' = jobs s" by (simp add: upload_handler_None)
    with j show ?thesis by (auto simp: next_ok_def split: option.splits)
  next
    case (Some c)
    from upload_handler_Some [OF h [unfolded Some]]
    have "jobs s uuid = None \<and> (\<exists>row. st' = (jobs s)(uuid \<mapsto> row) \<and> status row = js ''processing'')"
      by auto
    with j show ?thesis by (auto simp: next_ok_def split: option.splits if_splits)
  qed
next
  case (Extract j)
  then have "jobs (step ev e s) = jobs s" by (simp only: step_extract_jobs)
  then show ?thesis by (auto simp: next_ok_def split: option.splits)
next
  case (Write j now up)
  show ?thesis
  proof (cases "tasks s j")
    case None
    with Write show ?thesis by (auto simp: next_ok_def split: option.splits)
  next
    case (Some ph)
    with assms have "task_ok ev (jobs s) j ph" by (simp add: inv_def)
    then obtain row where row: "jobs s j = Some row" "status row = js ''processing''"
      by (auto simp: task_ok_def)
    show ?thesis
    proof (cases ph)
      case (Scheduled c)
      with Write Some show ?thesis by (auto simp: next_ok_def split: option.splits)
    next
      case (Completing rt json)
      with Write Some row show ?thesis
        by (cases up) (auto simp: next_ok_def db_update_result_def split: option.splits)
    next
      case (Failing err)
      with Write Some row show ?thesis
        by (cases up) (auto simp: next_ok_def db_update_status_def split: option.splits)
    qed
  qed
qed

lemma chain_states:
  "inv ev s \<Longrightarrow>
   (case jobs s i of None \<Rightarrow> prev = None | Some r \<Rightarrow> next_ok prev (status r)) \<Longrightarrow>
   chain prev (List.map_filter (\<lambda>s. map_option status (jobs s i)) (states ev es s))"
proof (induction es arbitrary: s prev)
  case Nil
  then show ?case by (auto simp: List.map_filter_simps split: option.splits)
next
  case (Cons e es)
  have inv': "inv ev (step ev e s)" using Cons.prems(1) by (rule inv_step)
  note st = step_status [OF Cons.prems(1), where e = e and i = i]
  show ?case
  proof (cases "jobs s i")
    case None
    with Cons.prems(2) have "prev = None" by simp
    moreover have "chain None (List.map_filter (\<lambda>s. map_option status (jobs s i)) (states ev es (step ev e s)))"
      using st None by (intro Cons.IH [OF inv']) (auto split: option.splits)
    ultimately show ?thesis using None by (simp add: List.map_filter_simps)
  next
    case (Some r)
    have "chain (Some (status r)) (List.map_filter (\<lambda>s. map_option status (jobs s i)) (states ev es (step ev e s)))"
      using st Some by (intro Cons.IH [OF inv']) (auto split: option.splits)
    then show ?thesis using Some Cons.prems(2) by (simp add: List.map_filter_simps)
  qed
qed

lemma chain_terminal:
  "chain (Some t) xs \<Longrightarrow> t = js ''completed'' \<or> t = js ''failed'' \<Longrightarrow> remdups_adj (t # xs) = [t]"
  by (induction xs) (auto simp: next_ok_def)

lemma chain_processing:
  "chain (Some (js ''processing'')) xs \<Longrightarrow>
   remdups_adj (js ''processing'' # xs) = [js ''processing''] \<or>
   remdups_adj (js ''processing'' # xs) = [js ''processing'', js ''completed''] \<or>
   remdups_adj (js ''processing'' # xs) = [js ''processing'', js ''failed'']"
proof (induction xs)
  case Nil
  then show ?case by simp
next
  case (Cons x xs)
  from Cons.prems have x: "x = js ''processing'' \<or> x = js ''completed'' \<or> x = js ''failed''"
    and ch: "chain (Some x) xs"
    by (auto simp: next_ok_def)
  from x show ?case
  proof (elim disjE)
    assume "x = js ''processing''"
    with Cons.IH ch show ?thesis by simp
  next
    assume xc: "x = js ''completed''"
    with ch have "remdups_adj (x # xs) = [x]" by (intro chain_terminal) simp_all
    with xc show ?thesis by simp
  next
    assume xf: "x = js ''failed''"
    with ch have "remdups_adj (x # xs) = [x]" by (intro chain_terminal) simp_all
    with xf show ?thesis by simp
  qed
qed

lemma chain_history:
  assumes "chain None xs"
  shows "remdups_adj xs = [] \<or> remdups_adj xs = [js ''processing''] \<or>
         remdups_adj xs = [js ''processing'', js ''completed''] \<or>
         remdups_adj xs = [js ''processing'', js ''failed'']"
proof (cases xs)
  case Nil
  then show ?thesis by simp
next
  case (Cons x ys)
  with assms have "x = js ''processing''" "chain (Some (js ''processing'')) ys"
    by (auto simp: next_ok_def)
  with Cons chain_processing [of ys] show ?thesis by simp
qed

lemma js_simps: "js [] = []" "js (c # cs) = of_char c # js cs"
  by (simp_all add: js_def)

lemmas eval_defs = stored_status_def stored_text_def stored_pages_def full_run_def req_of_def
  env_ok_def env_ocr_fails_def init_def upload_handler_def db_insert_def or_else_def
  multer_store_def writeFileSync_def extraction_def readFile_def performOCR_def unlinkSync_def
  db_update_result_def db_update_status_def db_get_def Let_def temp_path_def http_status_def
  js_simps dec.simps

lemma reachable_row_ok:
  "jobs (run ev es init) i = Some row \<Longrightarrow> row_ok ev i row"
  using inv_reachable [of ev es] by (simp add: inv_def)

lemma completed_row:
  assumes "jobs (run ev es init) i = Some row" "status row = js ''completed''"
  shows "job_id row = i \<and> (\<exists>rtxt json. result_text row = Some rtxt \<and> result_json row = Some json \<and>
           page_shape ev (language row) (extname_lower ev (filename row)) rtxt json)"
  using reachable_row_ok [OF assms(1)] assms(2) by (auto simp: row_ok_def)

lemma replace_newlines_map:
  "replace_newlines s = map (\<lambda>c. if c = 0xA then 0x20 else c) s"
  by (induction s) simp_all

lemma js_substring_prefix: "js_substring s 0 n = take n s"
  by (simp add: js_substring_def Let_def min_def)

lemma js_trim_Nil [simp]: "js_trim [] = []"
  by (simp add: js_trim_def)

lemma js_trim_empty_iff: "(js_trim s = []) = (\<forall>c\<in>set s. is_ws c)"
proof
  assume "js_trim s = []"
  then have e: "\<forall>c\<in>set (dropWhile is_ws s). is_ws c"
    by (simp add: js_trim_def dropWhile_eq_Nil_conv)
  show "\<forall>c\<in>set s. is_ws c"
  proof (cases "dropWhile is_ws s = []")
    case True
    then show ?thesis by (simp add: dropWhile_eq_Nil_conv)
  next
    case False
    then have "\<not> is_ws (hd (dropWhile is_ws s))" by (rule hd_dropWhile)
    moreover from False have "hd (dropWhile is_ws s) \<in> set (dropWhile is_ws s)" by simp
    ultimately show ?thesis using e by blast
  qed
next
  assume "\<forall>c\<in>set s. is_ws c"
  then have d: "dropWhile is_ws s = []" by (simp add: dropWhile_eq_Nil_conv)
  show "js_trim s = []" unfolding js_trim_def d by simp
qed


lemma text_layer_sufficient_iff:
  "text_layer_sufficient parsed =
     (\<exists>p t. parsed = Some p \<and> parsed_text p = Some t \<and> 31 \<le> length (js_trim t))"
  by (cases parsed) (auto simp: text_layer_sufficient_def split: option.splits)

lemma run_append: "run ev (xs @ ys) s = run ev ys (run ev xs s)"
  by (induction xs arbitrary: s) simp_all

lemma step_other:
  assumes "targets e \<noteq> i"
  shows "jobs (step ev e s) i = jobs s i \<and> tasks (step ev e s) i = tasks s i"
proof (cases e)
  case (Upload req content uuid now up)
  obtain r st' t where h: "upload_handler ev up now uuid (jobs s) req = (r, st', t)"
    by (cases "upload_handler ev up now uuid (jobs s) req") auto
  show ?thesis
  proof (cases t)
    case None
    with h have "st' = jobs s" by (simp add: upload_handler_None)
    with Upload h None show ?thesis by simp
  next
    case (Some c)
    from upload_handler_Some [OF h [unfolded Some]]
    have "(\<exists>row. st' = (jobs s)(uuid \<mapsto> row)) \<and> t_jobId c = uuid" by auto
    with Upload h Some assms show ?thesis by auto
  qed
next
  case (Extract j)
  with assms show ?thesis
    by (auto split: option.splits phase.splits sum.splits prod.splits)
next
  case (Write j now up)
  with assms show ?thesis
    by (auto simp: db_update_result_def db_update_status_def
        split: option.splits phase.splits sum.splits if_splits)
qed

lemma run_other:
  "\<forall>e\<in>set es. targets e \<noteq> i \<Longrightarrow>
   jobs (run ev es s) i = jobs s i \<and> tasks (run ev es s) i = tasks s i"
  by (induction es arbitrary: s) (simp_all add: step_other)

section \<open>The claims\<close>

text \<open>
  C1. For every job and every interleaving of upload requests and background closures,
  the status values the table holds for the job over time, repetitions merged, form a
  subsequence of pending, processing, completed or of pending, processing, failed:
  the status never goes back and never changes after completed or failed.
\<close>

theorem status_history_monotone:
  "subseq (status_history i (states ev es init)) [js ''pending'', js ''processing'', js ''completed''] \<or>
   subseq (status_history i (states ev es init)) [js ''pending'', js ''processing'', js ''failed'']"
proof -
  have "chain None (List.map_filter (\<lambda>s. map_option status (jobs s i)) (states ev es init))"
    by (rule chain_states [OF inv_init]) (simp add: init_def)
  from chain_history [OF this] show ?thesis
    unfolding status_history_def by (elim disjE) simp_all
qed

theorem status_history_monotone_witness:
  "status_history (js ''j1'') (states env_ok (full_run ''scan.png'') init)
     = [js ''processing'', js ''completed''] \<and>
   subseq (status_history (js ''j1'') (states env_ok (full_run ''scan.png'') init))
     [js ''pending'', js ''processing'', js ''completed'']"
proof -
  have h: "status_history (js ''j1'') (states env_ok (full_run ''scan.png'') init)
     = [js ''processing'', js ''completed'']"
    by (simp add: status_history_def List.map_filter_simps eval_defs)
  from status_history_monotone [of "js ''j1''" env_ok "full_run ''scan.png''"] h
  show ?thesis by simp
qed

text \<open>
  C2, as amended. For every upload that carries a file, when the \<open>INSERT\<close> succeeds (the
  database is up and the id is new), the handler replies 202 with the job id and the
  status \<open>processing\<close>, and the row it has stored is in status \<open>processing\<close> with no
  result; the background closure has only been started, so nothing is completed in the
  same call. The code has no status \<open>pending\<close>.
\<close>

theorem upload_reply_processing:
  assumes "req_file req = Some f" and "jobs s uuid = None"
  shows "fst (upload_handler ev True now uuid (jobs s) req) = Json 202 (AcceptedBody uuid (js ''processing'')) \<and>
         stored_status (step ev (Upload req content uuid now True) s) uuid = Some (js ''processing'') \<and>
         stored_text (step ev (Upload req content uuid now True) s) uuid = None \<and>
         stored_pages (step ev (Upload req content uuid now True) s) uuid = None \<and>
         tasks (step ev (Upload req content uuid now True) s) uuid =
           Some (Scheduled \<lparr>t_jobId = uuid, t_language = or_else (body_language req) (js ''eng''),
                            t_filePath = path f, t_fileExt = extname_lower ev (originalname f)\<rparr>)"
  using assms
  by (simp add: upload_handler_def db_insert_def Let_def stored_status_def stored_text_def stored_pages_def)

theorem upload_reply_processing_witness:
  "fst (upload_handler env_ok True 0 (js ''j1'') (jobs init) (req_of ''scan.png''))
     = Json 202 (AcceptedBody (js ''j1'') (js ''processing'')) \<and>
   stored_status (step env_ok (Upload (req_of ''scan.png'') [7] (js ''j1'') 0 True) init) (js ''j1'')
     = Some (js ''processing'')"
  using upload_reply_processing [of "req_of ''scan.png''" "\<lparr>originalname = js ''scan.png'', path = js ''uploads/f1''\<rparr>"
      init "js ''j1''" env_ok 0 "[7]"]
  by (simp add: req_of_def init_def)

text \<open>
  C2 as stated fails: for an accepted upload neither the reply nor the stored row says
  \<open>pending\<close>.
\<close>

theorem upload_reply_not_pending:
  "\<not> (fst (upload_handler env_ok True 0 (js ''j1'') (jobs init) (req_of ''scan.png''))
        = Json 202 (AcceptedBody (js ''j1'') (js ''pending'')) \<and>
      stored_status (step env_ok (Upload (req_of ''scan.png'') [7] (js ''j1'') 0 True) init) (js ''j1'')
        = Some (js ''pending''))"
  by (simp add: eval_defs)

text \<open>
  C3, as amended. For every job of the upload endpoint that is completed and whose file
  has the extension \<open>.pdf\<close>, the stored entries are numbered 1, 2, ... in order, and the
  stored text is the concatenation, in that order, of each page's text followed by two
  newlines. For the \<open>/pdf\<close> endpoint, when the text layer is sufficient the reply's text
  is the text layer's and its page list is empty.
\<close>

theorem stored_text_per_page:
  "(\<forall>row. jobs (run ev es init) i = Some row \<and> status row = js ''completed'' \<and>
          extname_lower ev (filename row) = js ''.pdf'' \<longrightarrow>
      (\<exists>json. result_json row = Some json \<and>
         map page json = map Some [1 ..< Suc (length json)] \<and>
         result_text row =
           Some (concat (map (\<lambda>p. ocr_text (data p) @ js [CHR 0x0A, CHR 0x0A]) json)))) \<and>
   (\<forall>file buffer parsed.
      getFileFromReq iev uuid1 req = Inr file \<and> readFileSync iev (f_path file) = Inr buffer \<and>
      pdfParse iev buffer = Inr parsed \<and> text_layer_sufficient parsed \<longrightarrow>
      (\<exists>out p. fst (pdf_handler iev uuid1 uuid2 req) = PdfOk out \<and> parsed = Some p \<and>
         out_text out = parsed_text p \<and> out_pages out = []))"
proof (intro conjI allI impI)
  fix row
  assume a: "jobs (run ev es init) i = Some row \<and> status row = js ''completed'' \<and>
          extname_lower ev (filename row) = js ''.pdf''"
  with completed_row [of ev es i row] obtain rtxt json where
    r: "result_text row = Some rtxt" "result_json row = Some json"
       "page_shape ev (language row) (js ''.pdf'') rtxt json"
    by auto
  then show "\<exists>json. result_json row = Some json \<and>
         map page json = map Some [1 ..< Suc (length json)] \<and>
         result_text row =
           Some (concat (map (\<lambda>p. ocr_text (data p) @ js [CHR 0x0A, CHR 0x0A]) json))"
    by (simp add: page_shape_def)
next
  fix fl buffer parsed
  assume a: "getFileFromReq iev uuid1 req = Inr fl \<and> readFileSync iev (f_path fl) = Inr buffer \<and>
      pdfParse iev buffer = Inr parsed \<and> text_layer_sufficient parsed"
  then obtain p where p: "parsed = Some p"
    by (auto simp: text_layer_sufficient_iff)
  with a show "\<exists>out p. fst (pdf_handler iev uuid1 uuid2 req) = PdfOk out \<and> parsed = Some p \<and>
         out_text out = parsed_text p \<and> out_pages out = []"
    by (simp add: pdf_handler_def summarize_and_reply_def Let_def)
qed

theorem stored_text_per_page_witness:
  "jobs (run env_ok (full_run ''scan.pdf'') init) (js ''j1'') =
     Some \<lparr>job_id = js ''j1'', filename = js ''scan.pdf'', status = js ''completed'',
           language = js ''eng'', result_text = Some (js ''a'' @ [0xA, 0xA] @ js ''b'' @ [0xA, 0xA]),
           result_json = Some [\<lparr>page = Some 1, data = \<lparr>ocr_text = js ''a'', ocr_rest = []\<rparr>\<rparr>,
                               \<lparr>page = Some 2, data = \<lparr>ocr_text = js ''b'', ocr_rest = []\<rparr>\<rparr>],
           created_at = 0, updated_at = 1\<rparr> \<and>
   extname_lower env_ok (js ''scan.pdf'') = js ''.pdf'' \<and>
   (\<exists>out. fst (pdf_handler idx_env_ok (js ''u1'') (js ''u2'') (pdf_req_of ''doc.pdf'')) = PdfOk out \<and>
      out_text out = Some (replicate 40 0x61) \<and> out_pages out = [])"
proof -
  have row: "jobs (run env_ok (full_run ''scan.pdf'') init) (js ''j1'') =
     Some \<lparr>job_id = js ''j1'', filename = js ''scan.pdf'', status = js ''completed'',
           language = js ''eng'', result_text = Some (js ''a'' @ [0xA, 0xA] @ js ''b'' @ [0xA, 0xA]),
           result_json = Some [\<lparr>page = Some 1, data = \<lparr>ocr_text = js ''a'', ocr_rest = []\<rparr>\<rparr>,
                               \<lparr>page = Some 2, data = \<lparr>ocr_text = js ''b'', ocr_rest = []\<rparr>\<rparr>],
           created_at = 0, updated_at = 1\<rparr>"
    by (simp add: eval_defs)
  have ext: "extname_lower env_ok (js ''scan.pdf'') = js ''.pdf''"
    by (simp add: env_ok_def js_simps)
  have f: "getFileFromReq idx_env_ok (js ''u1'') (pdf_req_of ''doc.pdf'')
        = Inr \<lparr>f_path = js ''uploads/f1'', f_originalname = js ''doc.pdf'', f_cleanup = False\<rparr>"
    by (simp add: getFileFromReq_def pdf_req_of_def)
  have r: "readFileSync idx_env_ok (f_path \<lparr>f_path = js ''uploads/f1'', f_originalname = js ''doc.pdf'', f_cleanup = False\<rparr>) = Inr [7]"
    by (simp add: idx_env_ok_def)
  have p: "pdfParse idx_env_ok [7] = Inr (Some \<lparr>parsed_text = Some (replicate 40 0x61)\<rparr>)"
    by (simp add: idx_env_ok_def)
  have s: "text_layer_sufficient (Some \<lparr>parsed_text = Some (replicate 40 0x61)\<rparr>)"
    by (simp add: text_layer_sufficient_def js_trim_def is_ws_def)
  from stored_text_per_page [of env_ok "full_run ''scan.pdf''" "js ''j1''" idx_env_ok "js ''u1''"
      "pdf_req_of ''doc.pdf''" "js ''u2''"] f r p s
  have "\<exists>out. fst (pdf_handler idx_env_ok (js ''u1'') (js ''u2'') (pdf_req_of ''doc.pdf'')) = PdfOk out \<and>
      out_text out = Some (replicate 40 0x61) \<and> out_pages out = []"
    by fastforce
  with row ext show ?thesis by blast
qed

text \<open>
  C3 as stated fails: for a PDF of two pages read as \<open>a\<close> and \<open>b\<close> the stored text is
  not the plain concatenation \<open>ab\<close> of the page texts.
\<close>

theorem stored_text_not_plain_concat:
  "stored_pages (run env_ok (full_run ''scan.pdf'') init) (js ''j1'') =
     Some [\<lparr>page = Some 1, data = \<lparr>ocr_text = js ''a'', ocr_rest = []\<rparr>\<rparr>,
           \<lparr>page = Some 2, data = \<lparr>ocr_text = js ''b'', ocr_rest = []\<rparr>\<rparr>] \<and>
   concat (page_texts [\<lparr>page = Some 1, data = \<lparr>ocr_text = js ''a'', ocr_rest = []\<rparr>\<rparr>,
                       \<lparr>page = Some 2, data = \<lparr>ocr_text = js ''b'', ocr_rest = []\<rparr>\<rparr>]) = js ''ab'' \<and>
   stored_status (run env_ok (full_run ''scan.pdf'') init) (js ''j1'') = Some (js ''completed'') \<and>
   stored_text (run env_ok (full_run ''scan.pdf'') init) (js ''j1'') \<noteq> Some (js ''ab'')"
  by (simp add: eval_defs page_texts_def)




text \<open>
  C5. For every reachable table and every job id, the result endpoint answers 404 when
  there is no such job, 400 with only an error message when the job's status is anything
  but completed (failed included), and 200 with the full result when it is completed;
  it answers 200 exactly when the status is completed.
\<close>

theorem result_handler_cases:
  "(jobs (run ev es init) i = None \<longrightarrow>
      result_handler True (jobs (run ev es init)) i = Json 404 (ErrorBody (js ''Job not found''))) \<and>
   (\<forall>row. jobs (run ev es init) i = Some row \<and> status row \<noteq> js ''completed'' \<longrightarrow>
      result_handler True (jobs (run ev es init)) i = Json 400 (ErrorBody (js ''Job not completed yet''))) \<and>
   (\<forall>row. jobs (run ev es init) i = Some row \<and> status row = js ''completed'' \<longrightarrow>
      (\<exists>rtxt json. result_text row = Some rtxt \<and> result_json row = Some json \<and>
         result_handler True (jobs (run ev es init)) i =
           Json 200 (ResultBody \<lparr>res_id = i, res_filename = filename row,
                                 res_language = language row, res_text = rtxt,
                                 res_data = Some json,
                                 res_accessibility = make_accessibility rtxt (language row)\<rparr>))) \<and>
   (http_status (result_handler True (jobs (run ev es init)) i) = Some 200)
     = (stored_status (run ev es init) i = Some (js ''completed''))"
proof (intro conjI allI impI)
  show "jobs (run ev es init) i = None \<Longrightarrow>
      result_handler True (jobs (run ev es init)) i = Json 404 (ErrorBody (js ''Job not found''))"
    by (simp add: result_handler_def db_get_def)
next
  fix row
  assume "jobs (run ev es init) i = Some row \<and> status row \<noteq> js ''completed''"
  then show "result_handler True (jobs (run ev es init)) i = Json 400 (ErrorBody (js ''Job not completed yet''))"
    by (simp add: result_handler_def db_get_def)
next
  fix row
  assume a: "jobs (run ev es init) i = Some row \<and> status row = js ''completed''"
  with completed_row [of ev es i row] obtain rtxt json where
    r: "job_id row = i" "result_text row = Some rtxt" "result_json row = Some json"
    by auto
  with a have "result_handler True (jobs (run ev es init)) i =
           Json 200 (ResultBody \<lparr>res_id = i, res_filename = filename row,
                                 res_language = language row, res_text = rtxt,
                                 res_data = Some json,
                                 res_accessibility = make_accessibility rtxt (language row)\<rparr>)"
    by (simp add: result_handler_def db_get_def)
  with r show "\<exists>rtxt json. result_text row = Some rtxt \<and> result_json row = Some json \<and>
         result_handler True (jobs (run ev es init)) i =
           Json 200 (ResultBody \<lparr>res_id = i, res_filename = filename row,
                                 res_language = language row, res_text = rtxt,
                                 res_data = Some json,
                                 res_accessibility = make_accessibility rtxt (language row)\<rparr>)"
    by blast
next
  show "(http_status (result_handler True (jobs (run ev es init)) i) = Some 200)
     = (stored_status (run ev es init) i = Some (js ''completed''))"
  proof (cases "jobs (run ev es init) i")
    case None
    then show ?thesis by (simp add: result_handler_def db_get_def http_status_def stored_status_def)
  next
    case (Some row)
    show ?thesis
    proof (cases "status row = js ''completed''")
      case True
      with completed_row [OF Some] obtain rtxt where "result_text row = Some rtxt" by auto
      with Some True show ?thesis
        by (simp add: result_handler_def db_get_def http_status_def stored_status_def)
    next
      case False
      with Some show ?thesis
        by (simp add: result_handler_def db_get_def http_status_def stored_status_def)
    qed
  qed
qed

theorem result_handler_cases_witness:
  "result_handler True (jobs (run env_ok (full_run ''scan.png'') init)) (js ''j1'') =
     Json 200 (ResultBody \<lparr>res_id = js ''j1'', res_filename = js ''scan.png'',
        res_language = js ''eng'', res_text = js ''b'',
        res_data = Some [\<lparr>page = None, data = \<lparr>ocr_text = js ''b'', ocr_rest = []\<rparr>\<rparr>],
        res_accessibility = \<lparr>alt_text = js ''b'', has_text = True, language_detected = js ''eng''\<rparr>\<rparr>) \<and>
   result_handler True (jobs (run env_ocr_fails (full_run ''scan.png'') init)) (js ''j1'') =
     Json 400 (ErrorBody (js ''Job not completed yet'')) \<and>
   result_handler True (jobs (run env_ok [] init)) (js ''j1'') = Json 404 (ErrorBody (js ''Job not found''))"
  using result_handler_cases [of env_ok "full_run ''scan.png''" "js ''j1''"]
    result_handler_cases [of env_ocr_fails "full_run ''scan.png''" "js ''j1''"]
    result_handler_cases [of env_ok "[]" "js ''j1''"]
  by (simp add: eval_defs result_handler_def make_accessibility_def js_substring_def js_trim_def is_ws_def)

text \<open>
  C6, as amended. The upload handler answers 400 exactly when the request carries no
  file, and then leaves the table as it is. The type of the file is not checked: a file
  of any name is accepted with 202 and a row is created for it, when the \<open>INSERT\<close>
  succeeds.
\<close>

theorem upload_rejects_only_missing_file:
  "(http_status (fst (upload_handler ev up now uuid st req)) = Some 400) = (req_file req = None) \<and>
   (req_file req = None \<longrightarrow>
      upload_handler ev up now uuid st req = (Json 400 (ErrorBody (js ''No file uploaded'')), st, None)) \<and>
   (\<forall>f. req_file req = Some f \<longrightarrow> up \<longrightarrow> st uuid = None \<longrightarrow>
      http_status (fst (upload_handler ev up now uuid st req)) = Some 202 \<and>
      map_option filename (fst (snd (upload_handler ev up now uuid st req)) uuid) = Some (originalname f))"
proof (cases "req_file req")
  case None
  then show ?thesis by (simp add: upload_handler_def http_status_def)
next
  case (Some f)
  have code: "http_status (fst (upload_handler ev up now uuid st req)) = Some 202 \<or>
              http_status (fst (upload_handler ev up now uuid st req)) = Some 500"
    using Some by (simp add: upload_handler_def http_status_def Let_def split: sum.splits)
  have ok: "http_status (fst (upload_handler ev up now uuid st req)) = Some 202 \<and>
      map_option filename (fst (snd (upload_handler ev up now uuid st req)) uuid) = Some (originalname f)"
    if "up" "st uuid = None"
    using Some that by (simp add: upload_handler_def db_insert_def http_status_def Let_def)
  from Some code ok show ?thesis by auto
qed

theorem upload_rejects_only_missing_file_witness:
  "http_status (fst (upload_handler env_ok True 0 (js ''j1'') Map.empty (req_of ''setup.exe''))) = Some 202 \<and>
   map_option filename (fst (snd (upload_handler env_ok True 0 (js ''j1'') Map.empty (req_of ''setup.exe''))) (js ''j1''))
     = Some (js ''setup.exe'') \<and>
   http_status (fst (upload_handler env_ok True 0 (js ''j1'') Map.empty \<lparr>req_file = None, body_language = None\<rparr>)) = Some 400"
  using upload_rejects_only_missing_file [of env_ok True 0 "js ''j1''" Map.empty "req_of ''setup.exe''"]
    upload_rejects_only_missing_file [of env_ok True 0 "js ''j1''" Map.empty "\<lparr>req_file = None, body_language = None\<rparr>"]
  by (simp add: req_of_def http_status_def)

text \<open>
  C6 as stated fails: an upload of \<open>setup.exe\<close> is not answered with 400, and a row is
  created.
\<close>

theorem upload_exe_accepted:
  "\<not> (http_status (fst (upload_handler env_ok True 0 (js ''j1'') Map.empty (req_of ''setup.exe''))) = Some 400 \<and>
      fst (snd (upload_handler env_ok True 0 (js ''j1'') Map.empty (req_of ''setup.exe''))) (js ''j1'') = None)"
  by (simp add: eval_defs)

text \<open>
  C7, as amended. For every job whose extraction raises an error, whatever other jobs do
  in between, the \<open>catch\<close> block's \<open>UPDATE\<close>, when it succeeds, leaves the row in status
  \<open>failed\<close> with a new \<open>updated_at\<close> and every other column as it was, and the closure
  is over. The table has no column for a reason, and none is stored.
\<close>

theorem failed_extraction_marks_failed:
  assumes "tasks s i = Some (Scheduled c)" and "jobs s i = Some row"
    and "snd (extraction ev c (disk s)) = Inl err"
    and "\<forall>e\<in>set mid. targets e \<noteq> i"
  shows "jobs (run ev ([Extract i] @ mid @ [Write i now True]) s) i
           = Some (row\<lparr>status := js ''failed'', updated_at := now\<rparr>) \<and>
         tasks (run ev ([Extract i] @ mid @ [Write i now True]) s) i = None"
proof -
  let ?s1 = "step ev (Extract i) s"
  let ?s2 = "run ev mid ?s1"
  obtain fs' where ex: "extraction ev c (disk s) = (fs', Inl err)"
    using assms(3) by (cases "extraction ev c (disk s)") auto
  have s1: "jobs ?s1 i = Some row" "tasks ?s1 i = Some (Failing err)"
    using assms(1,2) ex by simp_all
  from run_other [OF assms(4), of ev ?s1] s1
  have s2: "jobs ?s2 i = Some row" "tasks ?s2 i = Some (Failing err)" by simp_all
  have "run ev ([Extract i] @ mid @ [Write i now True]) s = step ev (Write i now True) ?s2"
    by (simp add: run_append)
  then show ?thesis using s2 by (simp add: db_update_status_def)
qed

theorem failed_extraction_marks_failed_witness:
  "jobs (run env_ocr_fails
          ([Extract (js ''j1'')] @ [Upload (req_of ''other.png'') [8] (js ''j2'') 1 True] @ [Write (js ''j1'') 2 True])
          (step env_ocr_fails (Upload (req_of ''scan.png'') [7] (js ''j1'') 0 True) init)) (js ''j1'')
     = Some \<lparr>job_id = js ''j1'', filename = js ''scan.png'', status = js ''failed'',
             language = js ''eng'', result_text = None, result_json = None,
             created_at = 0, updated_at = 2\<rparr>"
proof -
  let ?s = "step env_ocr_fails (Upload (req_of ''scan.png'') [7] (js ''j1'') 0 True) init"
  let ?c = "\<lparr>t_jobId = js ''j1'', t_language = js ''eng'', t_filePath = js ''uploads/f1'',
             t_fileExt = js ''.png''\<rparr>"
  let ?row = "\<lparr>job_id = js ''j1'', filename = js ''scan.png'', status = js ''processing'',
             language = js ''eng'', result_text = None, result_json = None,
             created_at = 0, updated_at = 0\<rparr>"
  have t: "tasks ?s (js ''j1'') = Some (Scheduled ?c)" by (simp add: eval_defs)
  have j: "jobs ?s (js ''j1'') = Some ?row" by (simp add: eval_defs)
  have e: "snd (extraction env_ocr_fails ?c (disk ?s)) = Inl (Error (js ''recognizer unavailable''))"
    by (simp add: eval_defs)
  have m: "\<forall>e\<in>set [Upload (req_of ''other.png'') [8] (js ''j2'') 1 True]. targets e \<noteq> js ''j1''"
    by (simp add: js_simps)
  from failed_extraction_marks_failed [OF t j e m, of 2] show ?thesis by simp
qed

text \<open>
  C7 as stated fails: after the recognizer rejected with \<open>recognizer unavailable\<close>, the
  job's row is in status \<open>failed\<close> and no text column of it holds the reason.
\<close>

theorem failed_job_records_no_reason:
  "jobs (run env_ocr_fails (full_run ''scan.png'') init) (js ''j1'')
     = Some \<lparr>job_id = js ''j1'', filename = js ''scan.png'', status = js ''failed'',
             language = js ''eng'', result_text = None, result_json = None,
             created_at = 0, updated_at = 1\<rparr> \<and>
   snd (extraction env_ocr_fails
          \<lparr>t_jobId = js ''j1'', t_language = js ''eng'', t_filePath = js ''uploads/f1'', t_fileExt = js ''.png''\<rparr>
          (disk (step env_ocr_fails (Upload (req_of ''scan.png'') [7] (js ''j1'') 0 True) init)))
     = Inl (Error (js ''recognizer unavailable'')) \<and>
   js ''recognizer unavailable''
     \<notin> set [js ''j1'', js ''scan.png'', js ''failed'', js ''eng'']"
  by (simp add: eval_defs)

text \<open>
  C8, as amended. For every completed job whose file does not have the extension
  \<open>.pdf\<close>, the stored result has exactly one entry, which has no page number and is the
  data the recognizer returned for the job's language, and the stored text is that
  entry's text. When the uploaded file is still as uploaded at the time the closure
  reads it, the entry is the recognizer's data on the uploaded content: the row then
  is the inserted row with status \<open>completed\<close>, that data as its only entry and its text
  as the stored text.
\<close>

theorem stored_single_image:
  "(\<forall>row. jobs (run ev es init) i = Some row \<and> status row = js ''completed'' \<and>
          extname_lower ev (filename row) \<noteq> js ''.pdf'' \<longrightarrow>
      (\<exists>b d. recognize ev b (language row) = Inr d \<and>
         result_json row = Some [\<lparr>page = None, data = d\<rparr>] \<and>
         result_text row = Some (ocr_text d))) \<and>
   (\<forall>s0 req f content d t0 now mid1 mid2.
      req_file req = Some f \<and> jobs s0 i = None \<and>
      extname_lower ev (originalname f) \<noteq> js ''.pdf'' \<and>
      (\<forall>e\<in>set mid1. targets e \<noteq> i) \<and> (\<forall>e\<in>set mid2. targets e \<noteq> i) \<and>
      disk (run ev mid1 (step ev (Upload req content i t0 True) s0)) (path f) = Some content \<and>
      recognize ev content (or_else (body_language req) (js ''eng'')) = Inr d \<longrightarrow>
      jobs (run ev ([Upload req content i t0 True] @ mid1 @ [Extract i] @ mid2 @ [Write i now True]) s0) i
        = Some \<lparr>job_id = i, filename = originalname f, status = js ''completed'',
                language = or_else (body_language req) (js ''eng''),
                result_text = Some (ocr_text d),
                result_json = Some [\<lparr>page = None, data = d\<rparr>],
                created_at = t0, updated_at = now\<rparr>)"
proof (intro conjI allI impI)
  fix row
  assume a: "jobs (run ev es init) i = Some row \<and> status row = js ''completed'' \<and>
          extname_lower ev (filename row) \<noteq> js ''.pdf''"
  with completed_row [of ev es i row] obtain rtxt json where
    r: "result_text row = Some rtxt" "result_json row = Some json"
       "page_shape ev (language row) (extname_lower ev (filename row)) rtxt json"
    by auto
  with a show "\<exists>b d. recognize ev b (language row) = Inr d \<and>
         result_json row = Some [\<lparr>page = None, data = d\<rparr>] \<and>
         result_text row = Some (ocr_text d)"
    by (auto simp: page_shape_def)
next
  fix s0 req f content d t0 now mid1 mid2
  assume a: "req_file req = Some f \<and> jobs s0 i = None \<and>
      extname_lower ev (originalname f) \<noteq> js ''.pdf'' \<and>
      (\<forall>e\<in>set mid1. targets e \<noteq> i) \<and> (\<forall>e\<in>set mid2. targets e \<noteq> i) \<and>
      disk (run ev mid1 (step ev (Upload req content i t0 True) s0)) (path f) = Some content \<and>
      recognize ev content (or_else (body_language req) (js ''eng'')) = Inr d"
  let ?lang = "or_else (body_language req) (js ''eng'')"
  let ?row = "\<lparr>job_id = i, filename = originalname f, status = js ''processing'',
                language = ?lang, result_text = None, result_json = None,
                created_at = t0, updated_at = t0\<rparr>"
  let ?c = "\<lparr>t_jobId = i, t_language = ?lang, t_filePath = path f,
             t_fileExt = extname_lower ev (originalname f)\<rparr>"
  let ?s1 = "step ev (Upload req content i t0 True) s0"
  let ?s2 = "run ev mid1 ?s1"
  let ?s3 = "step ev (Extract i) ?s2"
  let ?s4 = "run ev mid2 ?s3"
  have s1: "jobs ?s1 i = Some ?row" "tasks ?s1 i = Some (Scheduled ?c)"
    using a by (simp_all add: upload_handler_def db_insert_def Let_def)
  from a have m1: "\<forall>e\<in>set mid1. targets e \<noteq> i" and m2: "\<forall>e\<in>set mid2. targets e \<noteq> i"
    by simp_all
  from run_other [OF m1, of ev ?s1] s1
  have s2: "jobs ?s2 i = Some ?row" "tasks ?s2 i = Some (Scheduled ?c)" by simp_all
  have ex: "extraction ev ?c (disk ?s2) = (disk ?s2, Inr (ocr_text d, [\<lparr>page = None, data = d\<rparr>]))"
    using a by (simp add: extraction_def performOCR_def readFile_def)
  have s3: "jobs ?s3 i = Some ?row"
    "tasks ?s3 i = Some (Completing (ocr_text d) [\<lparr>page = None, data = d\<rparr>])"
    using s2 ex by simp_all
  from run_other [OF m2, of ev ?s3] s3
  have s4: "jobs ?s4 i = Some ?row"
    "tasks ?s4 i = Some (Completing (ocr_text d) [\<lparr>page = None, data = d\<rparr>])" by simp_all
  have "run ev ([Upload req content i t0 True] @ mid1 @ [Extract i] @ mid2 @ [Write i now True]) s0
          = step ev (Write i now True) ?s4"
    by (simp add: run_append)
  then show "jobs (run ev ([Upload req content i t0 True] @ mid1 @ [Extract i] @ mid2 @ [Write i now True]) s0) i
        = Some \<lparr>job_id = i, filename = originalname f, status = js ''completed'',
                language = ?lang, result_text = Some (ocr_text d),
                result_json = Some [\<lparr>page = None, data = d\<rparr>],
                created_at = t0, updated_at = now\<rparr>"
    using s4 by (simp add: db_update_result_def)
qed

theorem stored_single_image_witness:
  "recognize env_ok [7] (js ''eng'') = Inr \<lparr>ocr_text = js ''b'', ocr_rest = []\<rparr> \<and>
   extname_lower env_ok (js ''scan.png'') \<noteq> js ''.pdf'' \<and>
   jobs (run env_ok
          ([Upload (req_of ''scan.png'') [7] (js ''j1'') 0 True] @ [] @ [Extract (js ''j1'')]
             @ [Upload (req_of ''other.png'') [8] (js ''j2'') 1 True] @ [Write (js ''j1'') 2 True])
          init) (js ''j1'') =
     Some \<lparr>job_id = js ''j1'', filename = js ''scan.png'', status = js ''completed'',
           language = js ''eng'', result_text = Some (js ''b''),
           result_json = Some [\<lparr>page = None, data = \<lparr>ocr_text = js ''b'', ocr_rest = []\<rparr>\<rparr>],
           created_at = 0, updated_at = 2\<rparr>"
proof -
  let ?f = "\<lparr>originalname = js ''scan.png'', path = js ''uploads/f1''\<rparr>"
  let ?d = "\<lparr>ocr_text = js ''b'', ocr_rest = []\<rparr>"
  have rq: "req_file (req_of ''scan.png'') = Some ?f" by (simp add: req_of_def)
  have fresh: "jobs init (js ''j1'') = None" by (simp add: init_def)
  have ext: "extname_lower env_ok (originalname ?f) \<noteq> js ''.pdf''"
    by (simp add: env_ok_def js_simps)
  have m1: "\<forall>e\<in>set []. targets e \<noteq> js ''j1''" by simp
  have m2: "\<forall>e\<in>set [Upload (req_of ''other.png'') [8] (js ''j2'') 1 True]. targets e \<noteq> js ''j1''"
    by (simp add: js_simps)
  have dk: "disk (run env_ok [] (step env_ok (Upload (req_of ''scan.png'') [7] (js ''j1'') 0 True) init))
              (path ?f) = Some [7]"
    by (simp add: eval_defs)
  have rc: "recognize env_ok [7] (or_else (body_language (req_of ''scan.png'')) (js ''eng'')) = Inr ?d"
    by (simp add: env_ok_def req_of_def or_else_def)
  have lg: "or_else (body_language (req_of ''scan.png'')) (js ''eng'') = js ''eng''"
    by (simp add: req_of_def or_else_def)
  from stored_single_image [of env_ok "[]" "js ''j1''", THEN conjunct2, rule_format,
      of "req_of ''scan.png''" ?f init "[]" "[Upload (req_of ''other.png'') [8] (js ''j2'') 1 True]"
         "[7]" 0 ?d 2]
    rq fresh ext m1 m2 dk rc
  have "jobs (run env_ok
          ([Upload (req_of ''scan.png'') [7] (js ''j1'') 0 True] @ [] @ [Extract (js ''j1'')]
             @ [Upload (req_of ''other.png'') [8] (js ''j2'') 1 True] @ [Write (js ''j1'') 2 True])
          init) (js ''j1'') =
     Some \<lparr>job_id = js ''j1'', filename = originalname ?f, status = js ''completed'',
           language = or_else (body_language (req_of ''scan.png'')) (js ''eng''),
           result_text = Some (ocr_text ?d),
           result_json = Some [\<lparr>page = None, data = ?d\<rparr>],
           created_at = 0, updated_at = 2\<rparr>"
    by blast
  with rc lg ext show ?thesis by simp
qed

text \<open>
  C8 as stated fails: the single entry of a completed image job has no page number, so
  its page number is not 1.
\<close>

theorem single_image_has_no_page_number:
  "stored_status (run env_ok (full_run ''scan.png'') init) (js ''j1'') = Some (js ''completed'') \<and>
   map_option (map page) (stored_pages (run env_ok (full_run ''scan.png'') init) (js ''j1'')) = Some [None] \<and>
   map_option (map page) (stored_pages (run env_ok (full_run ''scan.png'') init) (js ''j1'')) \<noteq> Some [Some 1]"
  by (simp add: eval_defs)

text \<open>
  C9. The closure deletes a page's temporary image only after the recognizer has
  returned. At a PDF whose first page the recognizer rejects, the closure has ended, the
  job is failed, and the temporary image of page 0 is still on disk.
\<close>

theorem temp_file_left_on_ocr_error:
  "disk (run env_ocr_fails (full_run ''scan.pdf'') init) (temp_path (js ''j1'') 0) = Some [1] \<and>
   tasks (run env_ocr_fails (full_run ''scan.pdf'') init) (js ''j1'') = None \<and>
   stored_status (run env_ocr_fails (full_run ''scan.pdf'') init) (js ''j1'') = Some (js ''failed'')"
  by (simp add: eval_defs)

text \<open>
  C10. For every completed job, the result endpoint's accessibility object has as
  \<open>alt_text\<close> the first 200 code units of the stored text with every newline replaced by
  a space, followed by three dots exactly when the stored text is longer than 200, and
  \<open>has_text\<close> is true exactly when the stored text is not empty after trimming, that is
  when it has a character that is not white space.
\<close>

theorem result_accessibility:
  assumes "jobs (run ev es init) i = Some row" and "status row = js ''completed''"
  shows "\<exists>rtxt rb. result_text row = Some rtxt \<and>
           result_handler True (jobs (run ev es init)) i = Json 200 (ResultBody rb) \<and>
           alt_text (res_accessibility rb) =
             map (\<lambda>c. if c = 0xA then 0x20 else c) (take 200 rtxt)
               @ (if 200 < length rtxt then js ''...'' else []) \<and>
           has_text (res_accessibility rb) = (js_trim rtxt \<noteq> []) \<and>
           has_text (res_accessibility rb) = (\<exists>c\<in>set rtxt. \<not> is_ws c)"
proof -
  from completed_row [OF assms] obtain rtxt where r: "result_text row = Some rtxt" by auto
  let ?rb = "\<lparr>res_id = job_id row, res_filename = filename row,
               res_language = language row, res_text = rtxt,
               res_data = result_json row,
               res_accessibility = make_accessibility rtxt (language row)\<rparr>"
  have h: "result_handler True (jobs (run ev es init)) i = Json 200 (ResultBody ?rb)"
    using assms r by (simp add: result_handler_def db_get_def)
  have a: "alt_text (res_accessibility ?rb) =
             map (\<lambda>c. if c = 0xA then 0x20 else c) (take 200 rtxt)
               @ (if 200 < length rtxt then js ''...'' else [])"
    by (simp add: make_accessibility_def replace_newlines_map js_substring_prefix js_def)
  have t1: "has_text (res_accessibility ?rb) = (js_trim rtxt \<noteq> [])"
    by (simp add: make_accessibility_def)
  have t2: "has_text (res_accessibility ?rb) = (\<exists>c\<in>set rtxt. \<not> is_ws c)"
    using t1 js_trim_empty_iff [of rtxt] by blast
  from r h a t1 t2 show ?thesis by blast
qed

theorem result_accessibility_witness:
  "jobs (run env_ok (full_run ''scan.pdf'') init) (js ''j1'') =
     Some \<lparr>job_id = js ''j1'', filename = js ''scan.pdf'', status = js ''completed'',
           language = js ''eng'', result_text = Some [0x61, 0xA, 0xA, 0x62, 0xA, 0xA],
           result_json = Some [\<lparr>page = Some 1, data = \<lparr>ocr_text = js ''a'', ocr_rest = []\<rparr>\<rparr>,
                               \<lparr>page = Some 2, data = \<lparr>ocr_text = js ''b'', ocr_rest = []\<rparr>\<rparr>],
           created_at = 0, updated_at = 1\<rparr> \<and>
   (\<exists>rb. result_handler True (jobs (run env_ok (full_run ''scan.pdf'') init)) (js ''j1'')
            = Json 200 (ResultBody rb) \<and>
         alt_text (res_accessibility rb) = [0x61, 0x20, 0x20, 0x62, 0x20, 0x20] \<and>
         has_text (res_accessibility rb) = True)"
proof -
  let ?row = "\<lparr>job_id = js ''j1'', filename = js ''scan.pdf'', status = js ''completed'',
           language = js ''eng'', result_text = Some [0x61, 0xA, 0xA, 0x62, 0xA, 0xA],
           result_json = Some [\<lparr>page = Some 1, data = \<lparr>ocr_text = js ''a'', ocr_rest = []\<rparr>\<rparr>,
                               \<lparr>page = Some 2, data = \<lparr>ocr_text = js ''b'', ocr_rest = []\<rparr>\<rparr>],
           created_at = 0, updated_at = 1\<rparr>"
  have row: "jobs (run env_ok (full_run ''scan.pdf'') init) (js ''j1'') = Some ?row"
    by (simp add: eval_defs)
  have st: "status ?row = js ''completed''" by simp
  from result_accessibility [OF row st] obtain rb where
    "result_handler True (jobs (run env_ok (full_run ''scan.pdf'') init)) (js ''j1'') = Json 200 (ResultBody rb)"
    "alt_text (res_accessibility rb) =
       map (\<lambda>c. if c = 0xA then 0x20 else c) (take 200 [0x61, 0xA, 0xA, 0x62, 0xA, 0xA])
         @ (if 200 < length [0x61 :: jschar, 0xA, 0xA, 0x62, 0xA, 0xA] then js ''...'' else [])"
    "has_text (res_accessibility rb) = (\<exists>c\<in>set [0x61 :: jschar, 0xA, 0xA, 0x62, 0xA, 0xA]. \<not> is_ws c)"
    by auto
  then have "result_handler True (jobs (run env_ok (full_run ''scan.pdf'') init)) (js ''j1'') = Json 200 (ResultBody rb) \<and>
         alt_text (res_accessibility rb) = [0x61, 0x20, 0x20, 0x62, 0x20, 0x20] \<and>
         has_text (res_accessibility rb) = True"
    by (simp add: is_ws_def)
  with row show ?thesis by blast
qed

end
